theory Spec2Isabelle
  imports Main "HOL-Library.Word"
begin

section \<open>wedopp: bytes, errors and the raw channel\<close>

type_synonym u8 = "8 word"
type_synonym errno = int

text \<open>
  What a call of the library can end in besides a value. \<open>System_error\<close> is
  \<^verbatim>\<open>std::system_error{code, std::system_category(), what}\<close>; \<open>Bad_alloc\<close> is
  \<^verbatim>\<open>std::bad_alloc\<close>. \<open>Undefined_behaviour\<close> is no exception: it marks an access
  outside a \<^verbatim>\<open>std::array\<close> or through a pointer to no object, which the code
  performs unchecked. Of memory exhaustion the model has the one \<^verbatim>\<open>throw\<close> the source
  writes out, in \<^verbatim>\<open>InterfaceDetailData\<close>; \<^verbatim>\<open>new\<close>, \<^verbatim>\<open>std::string\<close> and
  \<^verbatim>\<open>std::vector\<close> are taken to find their memory.
\<close>

datatype error =
    System_error errno string
  | Bad_alloc
  | Undefined_behaviour

text \<open>
  \<^verbatim>\<open>detail::File\<close>: a descriptor (a handle in the Windows branch, whose class has
  the same members). The device behind the descriptor is the state \<open>chan\<close> with the
  two system calls the class uses: \<open>sys_read c n\<close> is \<^verbatim>\<open>::read(fd, buf, n)\<close>
  (\<^verbatim>\<open>ReadFile\<close>) and answers \<open>Inl errno\<close> for -1 (for FALSE) or \<open>Inr bs\<close> with the
  bytes delivered; \<open>sys_write c data\<close> is \<^verbatim>\<open>::write(fd, data, size)\<close>
  (\<^verbatim>\<open>WriteFile\<close>) and answers \<open>Inl errno\<close> for -1 (for FALSE) or the count.
\<close>

record 'c File =
  fd :: int
  chan :: 'c
  sys_read :: "'c \<Rightarrow> nat \<Rightarrow> (errno + u8 list) \<times> 'c"
  sys_write :: "'c \<Rightarrow> u8 list \<Rightarrow> (errno + nat) \<times> 'c"

text \<open>
  \<^verbatim>\<open>File::read(std::array<std::uint8_t, n>& data)\<close>: throws when \<^verbatim>\<open>::read\<close> is -1;
  the count returned otherwise is ignored, so a short read leaves the tail of
  \<open>data\<close> as it was. The result carries the new contents of \<open>data\<close>.
\<close>

definition File_read :: "'c File \<Rightarrow> u8 list \<Rightarrow> (error + u8 list) \<times> 'c File" where
  "File_read f data =
     (case sys_read f (chan f) (length data) of
        (Inl e, c) \<Rightarrow> (Inl (System_error e ''Failed to read from file''), f\<lparr>chan := c\<rparr>)
      | (Inr bs, c) \<Rightarrow>
          (let got = take (length data) bs
           in (Inr (got @ drop (length got) data), f\<lparr>chan := c\<rparr>)))"

text \<open>
  \<^verbatim>\<open>File::write(const std::array<std::uint8_t, n>& data)\<close>: hands the whole array to
  \<^verbatim>\<open>::write\<close> and throws when the call is -1.
\<close>

definition File_write :: "'c File \<Rightarrow> u8 list \<Rightarrow> (error + unit) \<times> 'c File" where
  "File_write f data =
     (case sys_write f (chan f) data of
        (Inl e, c) \<Rightarrow> (Inl (System_error e ''Failed to write to file''), f\<lparr>chan := c\<rparr>)
      | (Inr n, c) \<Rightarrow> (Inr (), f\<lparr>chan := c\<rparr>))"

section \<open>std::array access\<close>

text \<open>
  \<^verbatim>\<open>operator[]\<close> of \<^verbatim>\<open>std::array\<close> checks nothing: an index past the end is
  undefined behaviour, which the model makes a result of its own.
\<close>

definition array_at :: "u8 list \<Rightarrow> nat \<Rightarrow> error + u8" where
  "array_at a i = (if i < length a then Inr (a ! i) else Inl Undefined_behaviour)"

definition array_put :: "u8 list \<Rightarrow> nat \<Rightarrow> u8 \<Rightarrow> error + u8 list" where
  "array_put a i v = (if i < length a then Inr (a[i := v]) else Inl Undefined_behaviour)"

section \<open>detail::Processor\<close>

record 'c Processor =
  file_member :: "'c File"
  readBuffer :: "u8 list"
  writeBuffer :: "u8 list"

text \<open>The constructor: both \<^verbatim>\<open>std::array<std::uint8_t, 9>\<close> members are value-initialised.\<close>

definition Processor_ctor :: "'c File \<Rightarrow> 'c Processor" where
  "Processor_ctor f = \<lparr>file_member = f, readBuffer = replicate 9 0, writeBuffer = replicate 9 0\<rparr>"

text \<open>
  The index expressions \<^verbatim>\<open>4U + slot * 2U\<close>, \<^verbatim>\<open>3U + slot * 2U\<close> and \<^verbatim>\<open>2U + slot\<close>:
  \<open>slot\<close> is a \<^verbatim>\<open>std::uint8_t\<close> promoted to \<^verbatim>\<open>unsigned\<close>, so the arithmetic
  is at most \<open>4 + 255 * 2\<close> and never wraps.
\<close>

definition readType_index :: "u8 \<Rightarrow> nat" where
  "readType_index slot = 4 + unat slot * 2"

definition readValue_index :: "u8 \<Rightarrow> nat" where
  "readValue_index slot = 3 + unat slot * 2"

definition writeValue_index :: "u8 \<Rightarrow> nat" where
  "writeValue_index slot = 2 + unat slot"

text \<open>
  Each operation returns its outcome and the Processor afterwards: an exception leaves
  the object alive, with whatever the call had already changed.
\<close>

definition readType :: "'c Processor \<Rightarrow> u8 \<Rightarrow> (error + u8) \<times> 'c Processor" where
  "readType p slot =
     (case File_read (file_member p) (readBuffer p) of
        (Inl e, f) \<Rightarrow> (Inl e, p\<lparr>file_member := f\<rparr>)
      | (Inr buf, f) \<Rightarrow> (array_at buf (readType_index slot), p\<lparr>file_member := f, readBuffer := buf\<rparr>))"

definition readValue :: "'c Processor \<Rightarrow> u8 \<Rightarrow> (error + u8) \<times> 'c Processor" where
  "readValue p slot =
     (case File_read (file_member p) (readBuffer p) of
        (Inl e, f) \<Rightarrow> (Inl e, p\<lparr>file_member := f\<rparr>)
      | (Inr buf, f) \<Rightarrow> (array_at buf (readValue_index slot), p\<lparr>file_member := f, readBuffer := buf\<rparr>))"

definition writeValue :: "'c Processor \<Rightarrow> u8 \<Rightarrow> u8 \<Rightarrow> (error + unit) \<times> 'c Processor" where
  "writeValue p slot v =
     (case array_put (writeBuffer p) 1 64 of
        Inl e \<Rightarrow> (Inl e, p)
      | Inr wb1 \<Rightarrow>
          (case array_put wb1 (writeValue_index slot) v of
             Inl e \<Rightarrow> (Inl e, p\<lparr>writeBuffer := wb1\<rparr>)
           | Inr wb2 \<Rightarrow>
               (case File_write (file_member p) wb2 of
                  (r, f) \<Rightarrow> (r, p\<lparr>file_member := f, writeBuffer := wb2\<rparr>))))"

section \<open>Device\<close>

datatype Device_Type = none | motor | servoMotor | light | distanceSensor | tiltSensor

text \<open>\<^verbatim>\<open>Device::getDeviceType\<close>: the switch, case labels in the order of the source.\<close>

definition getDeviceType :: "u8 \<Rightarrow> Device_Type" where
  "getDeviceType b =
     (if b = 38 \<or> b = 39 then tiltSensor
      else if b = 102 \<or> b = 103 then servoMotor
      else if b = 177 \<or> b = 178 \<or> b = 179 \<or> b = 180 then distanceSensor
      else if b = 202 \<or> b = 203 \<or> b = 204 \<or> b = 205 then light
      else if b = 231 then none
      else if b = 0 \<or> b = 1 \<or> b = 2 \<or> b = 3 \<or> b = 239 \<or> b = 240 \<or> b = 241 then motor
      else none)"

text \<open>
  The table of section 4.2 of the specification, row by row in the specification's
  words, on the numeric value of the byte.
\<close>

definition decodeType_table :: "nat \<Rightarrow> Device_Type" where
  "decodeType_table n =
     (if n = 38 \<or> n = 39 then tiltSensor
      else if n = 102 \<or> n = 103 then servoMotor
      else if 177 \<le> n \<and> n \<le> 180 then distanceSensor
      else if 202 \<le> n \<and> n \<le> 205 then light
      else if n = 231 then none
      else if n \<le> 3 \<or> n = 239 \<or> n = 240 \<or> n = 241 then motor
      else none)"

text \<open>
  A \<^verbatim>\<open>Processor*\<close> is an address in a store of Processor objects; \<^verbatim>\<open>new\<close> puts
  the object behind the last one. Reading through an address that holds no object is
  undefined behaviour.
\<close>

type_synonym 'c heap = "'c Processor list"

definition deref :: "'c heap \<Rightarrow> nat \<Rightarrow> 'c Processor option" where
  "deref heap a = (if a < length heap then Some (heap ! a) else None)"

definition new_Processor :: "'c Processor \<Rightarrow> 'c heap \<Rightarrow> nat \<times> 'c heap" where
  "new_Processor p heap = (length heap, heap @ [p])"

record Device =
  slot :: u8
  processor :: nat

definition getSlot :: "Device \<Rightarrow> u8" where
  "getSlot d = slot d"

definition getType :: "Device \<Rightarrow> 'c heap \<Rightarrow> (error + Device_Type) \<times> 'c heap" where
  "getType d heap =
     (case deref heap (Device.processor d) of
        None \<Rightarrow> (Inl Undefined_behaviour, heap)
      | Some p \<Rightarrow>
          (case readType p (slot d) of
             (Inl e, p') \<Rightarrow> (Inl e, heap[Device.processor d := p'])
           | (Inr b, p') \<Rightarrow> (Inr (getDeviceType b), heap[Device.processor d := p'])))"

definition getValue :: "Device \<Rightarrow> 'c heap \<Rightarrow> (error + u8) \<times> 'c heap" where
  "getValue d heap =
     (case deref heap (Device.processor d) of
        None \<Rightarrow> (Inl Undefined_behaviour, heap)
      | Some p \<Rightarrow>
          (case readValue p (slot d) of (r, p') \<Rightarrow> (r, heap[Device.processor d := p'])))"

definition setValue :: "Device \<Rightarrow> u8 \<Rightarrow> 'c heap \<Rightarrow> (error + unit) \<times> 'c heap" where
  "setValue d v heap =
     (case deref heap (Device.processor d) of
        None \<Rightarrow> (Inl Undefined_behaviour, heap)
      | Some p \<Rightarrow>
          (case writeValue p (slot d) v of (r, p') \<Rightarrow> (r, heap[Device.processor d := p'])))"

section \<open>Hub\<close>

record Hub =
  name :: string
  path :: string
  devices :: "Device list"
  processor :: nat

text \<open>
  The constructor: \<^verbatim>\<open>processor{new detail::Processor(std::move(f))}\<close>, then the two
  \<^verbatim>\<open>push_back\<close> calls on the empty \<open>devices\<close>.
\<close>

definition Hub_ctor :: "string \<Rightarrow> string \<Rightarrow> 'c File \<Rightarrow> 'c heap \<Rightarrow> Hub \<times> 'c heap" where
  "Hub_ctor n p f heap =
     (case new_Processor (Processor_ctor f) heap of
        (a, heap') \<Rightarrow>
          (let devices0 = [];
               devices1 = devices0 @ [\<lparr>slot = 0, Device.processor = a\<rparr>];
               devices2 = devices1 @ [\<lparr>slot = 1, Device.processor = a\<rparr>]
           in (\<lparr>name = n, path = p, devices = devices2, processor = a\<rparr>, heap')))"

definition getName :: "Hub \<Rightarrow> string" where
  "getName h = name h"

definition getPath :: "Hub \<Rightarrow> string" where
  "getPath h = path h"

definition getDevices :: "Hub \<Rightarrow> Device list" where
  "getDevices h = devices h"

section \<open>findHubs\<close>

definition vendorId :: "16 word" where
  "vendorId = 0x0694"

definition productId :: "16 word" where
  "productId = 0x0003"

text \<open>
  What discovery changes outside its result: the store of Processor objects, the
  descriptors given to \<^verbatim>\<open>close\<close> (\<^verbatim>\<open>CloseHandle\<close>) by \<^verbatim>\<open>~File\<close>, oldest first, and
  the exceptions whose \<^verbatim>\<open>what()\<close> went to \<^verbatim>\<open>std::cerr\<close>.
\<close>

record 'c os =
  heap :: "'c heap"
  closed :: "int list"
  cerr :: "error list"

text \<open>
  The constructor of \<^verbatim>\<open>File\<close> on the value the opening call returned, -1 for failure
  (\<^verbatim>\<open>INVALID_HANDLE_VALUE\<close> on Windows), with the error code of that failure; and the
  destructor.
\<close>

definition File_ctor :: "'c File \<Rightarrow> errno \<Rightarrow> error + 'c File" where
  "File_ctor opened code =
     (if fd opened = - 1 then Inl (System_error code ''Failed to open file'') else Inr opened)"

definition File_dtor :: "'c File \<Rightarrow> 'c os \<Rightarrow> 'c os" where
  "File_dtor f s = (if fd f \<noteq> - 1 then s\<lparr>closed := closed s @ [fd f]\<rparr> else s)"

subsection \<open>The POSIX branch\<close>

record hiddev_devinfo =
  vendor :: "16 word"
  product :: "16 word"

text \<open>
  One entry of \<^verbatim>\<open>/dev/usb\<close> with what the kernel answers for it: the value of
  \<^verbatim>\<open>open(filename, O_RDWR)\<close> (descriptor -1 for failure, then \<open>open_errno\<close>), and the
  two \<^verbatim>\<open>ioctl\<close> calls, \<open>Inl errno\<close> for -1.
\<close>

record 'c usb_entry =
  d_name :: string
  sys_open :: "'c File"
  open_errno :: errno
  hidiocgdevinfo :: "errno + hiddev_devinfo"
  hidiocgname :: "errno + string"

text \<open>
  The body of the \<^verbatim>\<open>try\<close> block. \<open>vendor\<close> and \<open>product\<close> are \<^verbatim>\<open>__s16\<close> and the
  constants \<^verbatim>\<open>std::int16_t\<close>: both sides of \<^verbatim>\<open>==\<close> are promoted to \<^verbatim>\<open>int\<close>. The local
  \<open>file\<close> is destroyed when the block is left, by an exception too; after
  \<^verbatim>\<open>std::move(file)\<close> it holds -1 and its destructor closes nothing.
\<close>

definition try_linux ::
    "'c usb_entry \<Rightarrow> Hub list \<Rightarrow> 'c os \<Rightarrow> (error + unit) \<times> Hub list \<times> 'c os" where
  "try_linux ent hubs s =
     (let filename = ''/dev/usb/'' @ d_name ent in
      case File_ctor (sys_open ent) (open_errno ent) of
        Inl e \<Rightarrow> (Inl e, hubs, s)
      | Inr file \<Rightarrow>
          (case hidiocgdevinfo ent of
             Inl code \<Rightarrow> (Inl (System_error code ''Failed to get device info''), hubs, File_dtor file s)
           | Inr devinfo \<Rightarrow>
               if sint (vendor devinfo) = sint vendorId \<and> sint (product devinfo) = sint productId
               then (case hidiocgname ent of
                       Inl code \<Rightarrow>
                         (Inl (System_error code ''Failed to get device name''), hubs, File_dtor file s)
                     | Inr deviceName \<Rightarrow>
                         (case Hub_ctor deviceName filename file (heap s) of
                            (hub, heap') \<Rightarrow> (Inr (), hubs @ [hub], s\<lparr>heap := heap'\<rparr>)))
               else (Inr (), hubs, File_dtor file s)))"

text \<open>
  The loop \<^verbatim>\<open>while (const dirent* ent = readdir(dir.get()))\<close> over the entries the
  stream still holds. \<open>readdir_errno\<close> says how the stream ends: \<open>None\<close> for the end of
  the directory, \<open>Some errno\<close> for a failed \<^verbatim>\<open>readdir\<close>. Both return a null pointer,
  and the loop tests nothing else. \<^verbatim>\<open>strncmp("hid", ent->d_name, 3) == 0\<close> holds when
  the name starts with \<open>hid\<close>. The handler catches \<^verbatim>\<open>std::exception\<close>, every exception
  of the model, and prints it.
\<close>

fun scan_linux :: "'c usb_entry list \<Rightarrow> errno option \<Rightarrow> Hub list \<Rightarrow> 'c os \<Rightarrow> Hub list \<times> 'c os" where
  "scan_linux [] readdir_errno hubs s = (hubs, s)"
| "scan_linux (ent # rest) readdir_errno hubs s =
     (if take 3 (d_name ent) = ''hid''
      then (case try_linux ent hubs s of
              (Inl e, hubs', s') \<Rightarrow> scan_linux rest readdir_errno hubs' (s'\<lparr>cerr := cerr s' @ [e]\<rparr>)
            | (Inr u, hubs', s') \<Rightarrow> scan_linux rest readdir_errno hubs' s')
      else scan_linux rest readdir_errno hubs s)"

text \<open>\<^verbatim>\<open>opendir("/dev/usb")\<close>: \<open>Inl errno\<close> for a null pointer, or the stream.\<close>

datatype 'c DIR = DIR (entries: "'c usb_entry list") (readdir_errno: "errno option")

definition findHubs_linux :: "errno + 'c DIR \<Rightarrow> 'c os \<Rightarrow> (error + Hub list) \<times> 'c os" where
  "findHubs_linux opendir s =
     (case opendir of
        Inl code \<Rightarrow> (Inl (System_error code ''Failed to open directory''), s)
      | Inr dir \<Rightarrow>
          (case scan_linux (entries dir) (readdir_errno dir) [] s of
             (hubs, s') \<Rightarrow> (Inr hubs, s')))"

subsection \<open>The Windows branch\<close>

text \<open>The two error codes of \<^verbatim>\<open>winerror.h\<close> the loop compares with.\<close>

definition ERROR_NO_MORE_ITEMS :: errno where
  "ERROR_NO_MORE_ITEMS = 259"

definition ERROR_INSUFFICIENT_BUFFER :: errno where
  "ERROR_INSUFFICIENT_BUFFER = 122"

text \<open>
  One device interface with what the system answers for it. \<open>size_query\<close> is the first
  \<^verbatim>\<open>SetupDiGetDeviceInterfaceDetailA\<close> call: \<open>None\<close> for TRUE, \<open>Some code\<close> for FALSE
  with that \<^verbatim>\<open>GetLastError()\<close>. \<open>malloc_ok\<close> says whether \<^verbatim>\<open>std::malloc\<close> in
  \<^verbatim>\<open>InterfaceDetailData\<close> returned memory. \<open>detail_query\<close> is the second call, with the
  device path. \<open>create_file\<close> is the value of \<^verbatim>\<open>CreateFileA\<close>, handle -1 for
  \<^verbatim>\<open>INVALID_HANDLE_VALUE\<close>. \<open>hid_attributes\<close> is \<^verbatim>\<open>HidD_GetAttributes\<close>: \<open>None\<close> for
  FALSE, or \<^verbatim>\<open>VendorID\<close> and \<^verbatim>\<open>ProductID\<close>, both \<^verbatim>\<open>USHORT\<close>. \<open>product_string\<close> is
  the failure code of \<^verbatim>\<open>HidD_GetProductString\<close>, if it fails; \<open>utf8_count\<close> and
  \<open>utf8_bytes\<close> are the two \<^verbatim>\<open>WideCharToMultiByte\<close> calls, \<open>Inl code\<close> when they
  return 0.
\<close>

record 'c hid_interface =
  size_query :: "errno option"
  malloc_ok :: bool
  detail_query :: "errno + string"
  create_file :: "'c File"
  create_file_error :: errno
  hid_attributes :: "(16 word \<times> 16 word) option"
  product_string :: "errno option"
  utf8_count :: "errno + nat"
  utf8_bytes :: "errno + string"

text \<open>
  The body of the \<^verbatim>\<open>try\<close> block. \<^verbatim>\<open>attributes.VendorID == vendorId\<close> compares a
  \<^verbatim>\<open>USHORT\<close> with a \<^verbatim>\<open>std::int16_t\<close>, both promoted to \<^verbatim>\<open>int\<close>.
\<close>

definition try_win32 ::
    "'c hid_interface \<Rightarrow> string \<Rightarrow> Hub list \<Rightarrow> 'c os \<Rightarrow> (error + unit) \<times> Hub list \<times> 'c os" where
  "try_win32 iface DevicePath hubs s =
     (case File_ctor (create_file iface) (create_file_error iface) of
        Inl e \<Rightarrow> (Inl e, hubs, s)
      | Inr file \<Rightarrow>
          if (case hid_attributes iface of
                None \<Rightarrow> False
              | Some (VendorID, ProductID) \<Rightarrow>
                  uint VendorID = sint vendorId \<and> uint ProductID = sint productId)
          then (case product_string iface of
                  Some code \<Rightarrow>
                    (Inl (System_error code ''Failed to get device name''), hubs, File_dtor file s)
                | None \<Rightarrow>
                    (case utf8_count iface of
                       Inl code \<Rightarrow>
                         (Inl (System_error code ''Failed to convert wide char to UTF-8''), hubs,
                          File_dtor file s)
                     | Inr byteCount \<Rightarrow>
                         (case utf8_bytes iface of
                            Inl code \<Rightarrow>
                              (Inl (System_error code ''Failed to convert wide char to UTF-8''), hubs,
                               File_dtor file s)
                          | Inr buffer \<Rightarrow>
                              (case Hub_ctor buffer DevicePath file (heap s) of
                                 (hub, heap') \<Rightarrow> (Inr (), hubs @ [hub], s\<lparr>heap := heap'\<rparr>)))))
          else (Inr (), hubs, File_dtor file s))"

text \<open>
  An exception that leaves \<^verbatim>\<open>findHubs\<close> destroys the vector \<open>hubs\<close>: each Hub deletes
  its Processor, whose \<^verbatim>\<open>File\<close> is closed.
\<close>

definition Hub_dtor :: "Hub \<Rightarrow> 'c os \<Rightarrow> 'c os" where
  "Hub_dtor h s =
     (case deref (heap s) (Hub.processor h) of
        None \<Rightarrow> s
      | Some p \<Rightarrow> File_dtor (file_member p) s)"

definition unwind :: "error \<Rightarrow> Hub list \<Rightarrow> 'c os \<Rightarrow> (error + Hub list) \<times> 'c os" where
  "unwind e hubs s = (Inl e, foldl (\<lambda>s' h. Hub_dtor h s') s hubs)"

text \<open>
  The loop \<^verbatim>\<open>for (DWORD index = 0;; ++index)\<close> over the answers of
  \<^verbatim>\<open>SetupDiEnumDeviceInterfaces\<close> from \<open>index\<close> on: \<open>Inl code\<close> for FALSE with that
  \<^verbatim>\<open>GetLastError()\<close>, \<open>Inr\<close> for an interface; past the last interface of the set
  the call fails with \<^verbatim>\<open>ERROR_NO_MORE_ITEMS\<close>. The handler catches
  \<^verbatim>\<open>std::system_error\<close> only.
\<close>

fun scan_win32 ::
    "(errno + 'c hid_interface) list \<Rightarrow> Hub list \<Rightarrow> 'c os \<Rightarrow> (error + Hub list) \<times> 'c os" where
  "scan_win32 [] hubs s = (Inr hubs, s)"
| "scan_win32 (Inl code # rest) hubs s =
     (if code \<noteq> ERROR_NO_MORE_ITEMS
      then unwind (System_error code ''Failed to enumerate device interfaces'') hubs s
      else (Inr hubs, s))"
| "scan_win32 (Inr iface # rest) hubs s =
     (if (case size_query iface of None \<Rightarrow> False | Some code \<Rightarrow> code \<noteq> ERROR_INSUFFICIENT_BUFFER)
      then unwind (System_error (the (size_query iface)) ''Failed to get interface detail'') hubs s
      else if \<not> malloc_ok iface then unwind Bad_alloc hubs s
      else (case detail_query iface of
              Inl code \<Rightarrow> unwind (System_error code ''Failed to get interface detail'') hubs s
            | Inr DevicePath \<Rightarrow>
                (case try_win32 iface DevicePath hubs s of
                   (Inl (System_error code what), hubs', s') \<Rightarrow> scan_win32 rest hubs' s'
                 | (Inl Bad_alloc, hubs', s') \<Rightarrow> unwind Bad_alloc hubs' s'
                 | (Inl Undefined_behaviour, hubs', s') \<Rightarrow> unwind Undefined_behaviour hubs' s'
                 | (Inr u, hubs', s') \<Rightarrow> scan_win32 rest hubs' s')))"

text \<open>
  \<^verbatim>\<open>SetupDiGetClassDevs\<close> in the constructor of \<^verbatim>\<open>DevInfo\<close>: \<open>Inl code\<close> for
  \<^verbatim>\<open>INVALID_HANDLE_VALUE\<close>, or the device information set.
\<close>

definition findHubs_win32 ::
    "errno + (errno + 'c hid_interface) list \<Rightarrow> 'c os \<Rightarrow> (error + Hub list) \<times> 'c os" where
  "findHubs_win32 devInfo s =
     (case devInfo of
        Inl code \<Rightarrow> (Inl (System_error code ''Failed to get devices''), s)
      | Inr interfaces \<Rightarrow> scan_win32 interfaces [] s)"

section \<open>Observing a Processor\<close>

text \<open>
  To see what a Processor asks of its channel, the channel is wrapped: \<open>recording f log\<close>
  behaves as \<open>f\<close> does and also keeps the list of the calls made so far, each read with
  its size and each write with the report handed over.
\<close>

datatype io_call = Read_call nat | Write_call "u8 list"

definition recording :: "'c File \<Rightarrow> io_call list \<Rightarrow> ('c \<times> io_call list) File" where
  "recording f log =
     \<lparr>fd = fd f, chan = (chan f, log),
      sys_read = (\<lambda>(c, l) n. case sys_read f c n of (r, c') \<Rightarrow> (r, (c', l @ [Read_call n]))),
      sys_write = (\<lambda>(c, l) d. case sys_write f c d of (r, c') \<Rightarrow> (r, (c', l @ [Write_call d])))\<rparr>"

definition calls :: "('c \<times> io_call list) Processor \<Rightarrow> io_call list" where
  "calls p = snd (chan (file_member p))"

fun reports :: "io_call list \<Rightarrow> u8 list list" where
  "reports [] = []"
| "reports (Read_call n # cs) = reports cs"
| "reports (Write_call d # cs) = d # reports cs"

text \<open>
  A caller's use of one Processor over time: a list of requests, each run on the state
  the one before left, whether it returned or threw.
\<close>

datatype request = ReadType u8 | ReadValue u8 | WriteValue u8 u8

fun request_slot :: "request \<Rightarrow> u8" where
  "request_slot (ReadType s) = s"
| "request_slot (ReadValue s) = s"
| "request_slot (WriteValue s v) = s"

fun serve :: "'c Processor \<Rightarrow> request \<Rightarrow> 'c Processor" where
  "serve p (ReadType s) = snd (readType p s)"
| "serve p (ReadValue s) = snd (readValue p s)"
| "serve p (WriteValue s v) = snd (writeValue p s v)"

fun serve_all :: "'c Processor \<Rightarrow> request list \<Rightarrow> 'c Processor" where
  "serve_all p [] = p"
| "serve_all p (r # rs) = serve_all (serve p r) rs"

text \<open>
  Modelled from the spec: the stub channel of the round-trip property of section 8, which
  the repository does not contain. Its state is the 9-byte report the next read
  delivers; a write copies the value bytes of the report written to where a read finds
  them (write offset 2 to read offset 3, write offset 3 to read offset 5).
\<close>

definition echo_stub :: "u8 list \<Rightarrow> (u8 list) File" where
  "echo_stub report =
     \<lparr>fd = 3, chan = report,
      sys_read = (\<lambda>c n. (Inr (take n c), c)),
      sys_write = (\<lambda>c d. (Inr (length d), c[3 := d ! 2, 5 := d ! 3]))\<rparr>"

section \<open>The result of discovery, from the specification\<close>

text \<open>
  The Hub the constructor builds around the Processor at address \<open>a\<close>; the identifier
  a candidate must answer, \<open>(0x0694, 0x0003)\<close>; the candidates of the POSIX scan that
  pass every step (name starting with \<open>hid\<close>, opened, identifier queried and equal to
  the target, name retrieved); and the Hubs of those candidates in enumeration order,
  the first at address \<open>a\<close>.
\<close>

definition Hub_at :: "nat \<Rightarrow> string \<Rightarrow> string \<Rightarrow> Hub" where
  "Hub_at a n p =
     \<lparr>name = n, path = p,
      devices = [\<lparr>slot = 0, Device.processor = a\<rparr>, \<lparr>slot = 1, Device.processor = a\<rparr>],
      processor = a\<rparr>"

definition is_target :: "16 word \<Rightarrow> 16 word \<Rightarrow> bool" where
  "is_target v p \<longleftrightarrow> v = 0x0694 \<and> p = 0x0003"

definition accepted_linux :: "'c usb_entry \<Rightarrow> bool" where
  "accepted_linux ent \<longleftrightarrow>
     take 3 (d_name ent) = ''hid'' \<and> fd (sys_open ent) \<noteq> - 1 \<and>
     (case hidiocgdevinfo ent of Inl code \<Rightarrow> False | Inr info \<Rightarrow> is_target (vendor info) (product info)) \<and>
     (case hidiocgname ent of Inl code \<Rightarrow> False | Inr n \<Rightarrow> True)"

definition hub_of_linux :: "nat \<Rightarrow> 'c usb_entry \<Rightarrow> Hub" where
  "hub_of_linux a ent =
     Hub_at a (case hidiocgname ent of Inl code \<Rightarrow> [] | Inr n \<Rightarrow> n) (''/dev/usb/'' @ d_name ent)"

fun discovered_linux :: "nat \<Rightarrow> 'c usb_entry list \<Rightarrow> Hub list" where
  "discovered_linux a [] = []"
| "discovered_linux a (ent # rest) =
     (if accepted_linux ent then hub_of_linux a ent # discovered_linux (Suc a) rest
      else discovered_linux a rest)"

text \<open>
  The same for the Windows scan. \<open>enumerated\<close> says that the detail of an interface was
  obtained; \<open>enumeration_error\<close> is the first failure of the enumeration facility, if
  any comes before the end of the set.
\<close>

definition enumerated :: "'c hid_interface \<Rightarrow> bool" where
  "enumerated iface \<longleftrightarrow>
     (case size_query iface of None \<Rightarrow> True | Some code \<Rightarrow> code = ERROR_INSUFFICIENT_BUFFER) \<and>
     malloc_ok iface \<and>
     (case detail_query iface of Inl code \<Rightarrow> False | Inr p \<Rightarrow> True)"

definition accepted_win32 :: "'c hid_interface \<Rightarrow> bool" where
  "accepted_win32 iface \<longleftrightarrow>
     fd (create_file iface) \<noteq> - 1 \<and>
     (case hid_attributes iface of None \<Rightarrow> False | Some (v, p) \<Rightarrow> is_target v p) \<and>
     product_string iface = None \<and>
     (case utf8_count iface of Inl code \<Rightarrow> False | Inr n \<Rightarrow> True) \<and>
     (case utf8_bytes iface of Inl code \<Rightarrow> False | Inr b \<Rightarrow> True)"

definition hub_of_win32 :: "nat \<Rightarrow> 'c hid_interface \<Rightarrow> Hub" where
  "hub_of_win32 a iface =
     Hub_at a (case utf8_bytes iface of Inl code \<Rightarrow> [] | Inr b \<Rightarrow> b)
       (case detail_query iface of Inl code \<Rightarrow> [] | Inr p \<Rightarrow> p)"

fun enumeration_error :: "(errno + 'c hid_interface) list \<Rightarrow> error option" where
  "enumeration_error [] = None"
| "enumeration_error (Inl code # rest) =
     (if code = ERROR_NO_MORE_ITEMS then None
      else Some (System_error code ''Failed to enumerate device interfaces''))"
| "enumeration_error (Inr iface # rest) =
     (case size_query iface of
        Some code \<Rightarrow>
          if code = ERROR_INSUFFICIENT_BUFFER then
            (if \<not> malloc_ok iface then Some Bad_alloc
             else case detail_query iface of
                    Inl code' \<Rightarrow> Some (System_error code' ''Failed to get interface detail'')
                  | Inr p \<Rightarrow> enumeration_error rest)
          else Some (System_error code ''Failed to get interface detail'')
      | None \<Rightarrow>
          (if \<not> malloc_ok iface then Some Bad_alloc
           else case detail_query iface of
                  Inl code' \<Rightarrow> Some (System_error code' ''Failed to get interface detail'')
                | Inr p \<Rightarrow> enumeration_error rest))"

fun discovered_win32 :: "nat \<Rightarrow> (errno + 'c hid_interface) list \<Rightarrow> Hub list" where
  "discovered_win32 a [] = []"
| "discovered_win32 a (Inl code # rest) = []"
| "discovered_win32 a (Inr iface # rest) =
     (if accepted_win32 iface then hub_of_win32 a iface # discovered_win32 (Suc a) rest
      else discovered_win32 a rest)"

text \<open>
  A write report whose bytes outside offsets 1, 2 and 3 are zero; the requests that
  transmit; and what holds of a recorded Processor all its life, for requests on slots
  0 and 1.
\<close>

definition padded :: "u8 list \<Rightarrow> bool" where
  "padded d \<longleftrightarrow> length d = 9 \<and> d ! 0 = 0 \<and> d ! 4 = 0 \<and> d ! 5 = 0 \<and> d ! 6 = 0 \<and> d ! 7 = 0 \<and> d ! 8 = 0"

fun is_write :: "request \<Rightarrow> bool" where
  "is_write (WriteValue s v) = True"
| "is_write r = False"

definition lifetime_inv :: "('c \<times> io_call list) Processor \<Rightarrow> bool" where
  "lifetime_inv p \<longleftrightarrow>
     (\<exists>f log. file_member p = recording f log) \<and> length (readBuffer p) = 9 \<and>
     padded (writeBuffer p) \<and> list_all padded (reports (calls p))"

text \<open>
  A caller's use of the Devices of a Hub over time: a list of requests, each to one
  Device, each run on the store the one before left. \<open>as_request\<close> is the request the
  Device passes on to its Processor.
\<close>

datatype device_request = GetType | GetValue | SetValue u8

fun device_serve :: "Device \<Rightarrow> device_request \<Rightarrow> 'c heap \<Rightarrow> 'c heap" where
  "device_serve d GetType H = snd (getType d H)"
| "device_serve d GetValue H = snd (getValue d H)"
| "device_serve d (SetValue v) H = snd (setValue d v H)"

fun devices_serve :: "(Device \<times> device_request) list \<Rightarrow> 'c heap \<Rightarrow> 'c heap" where
  "devices_serve [] H = H"
| "devices_serve ((d, rq) # rest) H = devices_serve rest (device_serve d rq H)"

fun as_request :: "Device \<times> device_request \<Rightarrow> request" where
  "as_request (d, GetType) = ReadType (slot d)"
| "as_request (d, GetValue) = ReadValue (slot d)"
| "as_request (d, SetValue v) = WriteValue (slot d) v"

text \<open>
  A channel for concrete runs: every read delivers the same report, every write is
  accepted whole.
\<close>

definition steady_file :: "u8 list \<Rightarrow> unit File" where
  "steady_file report =
     \<lparr>fd = 3, chan = (), sys_read = (\<lambda>c n. (Inr (take n report), c)),
      sys_write = (\<lambda>c d. (Inr (length d), c))\<rparr>"

text \<open>
  A Hub with the two Device views the specification asks for: slots 0 and 1 in this
  order, both pointing at the Processor the Hub owns.
\<close>

definition two_views :: "Hub \<Rightarrow> bool" where
  "two_views h \<longleftrightarrow>
     getDevices h = [\<lparr>slot = 0, Device.processor = Hub.processor h\<rparr>,
                     \<lparr>slot = 1, Device.processor = Hub.processor h\<rparr>]"

section \<open>Sample candidates\<close>

text \<open>
  Concrete candidates for runs of the two scans: a store with nothing in it, a channel
  with descriptor \<open>k\<close>, and for each branch a candidate that cannot be opened, one that
  answers no identifier query, one of another product, a hub, a hub whose name cannot be
  retrieved and (on Windows) a hub whose name cannot be converted.
\<close>

definition os0 :: "unit os" where
  "os0 = \<lparr>heap = [], closed = [], cerr = []\<rparr>"

definition sample_file :: "int \<Rightarrow> unit File" where
  "sample_file k = (steady_file [0, 0, 0, 0, 0, 0, 0, 0, 0])\<lparr>fd := k\<rparr>"

definition linux_unopenable :: "unit usb_entry" where
  "linux_unopenable =
     \<lparr>d_name = ''hiddev0'', sys_open = sample_file (- 1), open_errno = 13,
      hidiocgdevinfo = Inl 9, hidiocgname = Inl 9\<rparr>"

definition linux_other_product :: "unit usb_entry" where
  "linux_other_product =
     \<lparr>d_name = ''hiddev1'', sys_open = sample_file 4, open_errno = 0,
      hidiocgdevinfo = Inr \<lparr>vendor = 0x0694, product = 0x0002\<rparr>, hidiocgname = Inr ''Other''\<rparr>"

definition linux_hub :: "unit usb_entry" where
  "linux_hub =
     \<lparr>d_name = ''hiddev2'', sys_open = sample_file 5, open_errno = 0,
      hidiocgdevinfo = Inr \<lparr>vendor = 0x0694, product = 0x0003\<rparr>, hidiocgname = Inr ''LEGO USB Hub''\<rparr>"

definition linux_nameless_hub :: "unit usb_entry" where
  "linux_nameless_hub =
     \<lparr>d_name = ''hiddev3'', sys_open = sample_file 6, open_errno = 0,
      hidiocgdevinfo = Inr \<lparr>vendor = 0x0694, product = 0x0003\<rparr>, hidiocgname = Inl 5\<rparr>"

definition win32_interface :: "string \<Rightarrow> unit File \<Rightarrow> (16 word \<times> 16 word) option \<Rightarrow> errno option
    \<Rightarrow> errno + string \<Rightarrow> unit hid_interface" where
  "win32_interface p f attrs name_error utf8 =
     \<lparr>size_query = Some ERROR_INSUFFICIENT_BUFFER, malloc_ok = True, detail_query = Inr p,
      create_file = f, create_file_error = 5, hid_attributes = attrs,
      product_string = name_error, utf8_count = Inr 13, utf8_bytes = utf8\<rparr>"

definition win32_unopenable :: "unit hid_interface" where
  "win32_unopenable = win32_interface ''hid#0'' (sample_file (- 1)) None None (Inr [])"

definition win32_other_product :: "unit hid_interface" where
  "win32_other_product =
     win32_interface ''hid#1'' (sample_file 4) (Some (0x0694, 0x0002)) None (Inr ''Other'')"

definition win32_hub :: "unit hid_interface" where
  "win32_hub =
     win32_interface ''hid#2'' (sample_file 5) (Some (0x0694, 0x0003)) None (Inr ''LEGO USB Hub'')"

definition win32_nameless_hub :: "unit hid_interface" where
  "win32_nameless_hub =
     win32_interface ''hid#3'' (sample_file 6) (Some (0x0694, 0x0003)) (Some 31) (Inr [])"

definition win32_unencodable_hub :: "unit hid_interface" where
  "win32_unencodable_hub =
     win32_interface ''hid#4'' (sample_file 7) (Some (0x0694, 0x0003)) None (Inl 1113)"

definition linux_mute :: "unit usb_entry" where
  "linux_mute =
     \<lparr>d_name = ''hiddev4'', sys_open = sample_file 7, open_errno = 0,
      hidiocgdevinfo = Inl 25, hidiocgname = Inl 25\<rparr>"

definition win32_mute :: "unit hid_interface" where
  "win32_mute = win32_interface ''hid#5'' (sample_file 8) None None (Inr [])"

section \<open>The type-decode table\<close>

text \<open>
  C1. For every byte the decode function of the code agrees with the table of the
  specification: 38 and 39 are a tilt sensor, 102 and 103 a servo motor, 177 to 180 a
  distance sensor, 202 to 205 a light, 231 nothing, 0 to 3 and 239 to 241 a motor, and
  every other byte nothing. The function is a total function of the byte alone.
\<close>

theorem getDeviceType_matches_table:
  "getDeviceType b = decodeType_table (unat b)
   \<and> getDeviceType 38 = tiltSensor \<and> getDeviceType 231 = none \<and> getDeviceType 17 = none"
proof -
  have "getDeviceType b = decodeType_table (unat b)"
    unfolding getDeviceType_def decodeType_table_def
    by (simp add: word_unat_eq_iff)
  moreover have "getDeviceType 38 = tiltSensor" "getDeviceType 231 = none" "getDeviceType 17 = none"
    by (simp_all add: getDeviceType_def)
  ultimately show ?thesis by simp
qed

section \<open>The wire protocol of the Processor\<close>

lemma File_read_recording:
  "File_read (recording f log) data =
     (case sys_read f (chan f) (length data) of
        (Inl e, c) \<Rightarrow> (Inl (System_error e ''Failed to read from file''),
                       recording (f\<lparr>chan := c\<rparr>) (log @ [Read_call (length data)]))
      | (Inr bs, c) \<Rightarrow> (Inr (take (length data) bs @ drop (length (take (length data) bs)) data),
                       recording (f\<lparr>chan := c\<rparr>) (log @ [Read_call (length data)])))"
  by (simp add: File_read_def recording_def Let_def split: prod.splits sum.splits)

lemma File_write_recording:
  "File_write (recording f log) data =
     (case sys_write f (chan f) data of
        (Inl e, c) \<Rightarrow> (Inl (System_error e ''Failed to write to file''),
                       recording (f\<lparr>chan := c\<rparr>) (log @ [Write_call data]))
      | (Inr n, c) \<Rightarrow> (Inr (), recording (f\<lparr>chan := c\<rparr>) (log @ [Write_call data])))"
  by (simp add: File_write_def recording_def split: prod.splits sum.splits)

lemma chan_recording: "chan (recording f log) = (chan f, log)"
  by (simp add: recording_def)

lemma readType_recording:
  assumes "file_member p = recording f log" and "length (readBuffer p) = 9"
  shows "readType p s =
     (case sys_read f (chan f) 9 of
        (Inl e, c) \<Rightarrow> (Inl (System_error e ''Failed to read from file''),
                       p\<lparr>file_member := recording (f\<lparr>chan := c\<rparr>) (log @ [Read_call 9])\<rparr>)
      | (Inr bs, c) \<Rightarrow>
          (array_at (take 9 bs @ drop (length (take 9 bs)) (readBuffer p)) (readType_index s),
           p\<lparr>file_member := recording (f\<lparr>chan := c\<rparr>) (log @ [Read_call 9]),
             readBuffer := take 9 bs @ drop (length (take 9 bs)) (readBuffer p)\<rparr>))"
  using assms by (simp add: readType_def File_read_recording split: prod.splits sum.splits)

lemma readValue_recording:
  assumes "file_member p = recording f log" and "length (readBuffer p) = 9"
  shows "readValue p s =
     (case sys_read f (chan f) 9 of
        (Inl e, c) \<Rightarrow> (Inl (System_error e ''Failed to read from file''),
                       p\<lparr>file_member := recording (f\<lparr>chan := c\<rparr>) (log @ [Read_call 9])\<rparr>)
      | (Inr bs, c) \<Rightarrow>
          (array_at (take 9 bs @ drop (length (take 9 bs)) (readBuffer p)) (readValue_index s),
           p\<lparr>file_member := recording (f\<lparr>chan := c\<rparr>) (log @ [Read_call 9]),
             readBuffer := take 9 bs @ drop (length (take 9 bs)) (readBuffer p)\<rparr>))"
  using assms by (simp add: readValue_def File_read_recording split: prod.splits sum.splits)

lemma writeValue_recording:
  assumes "file_member p = recording f log" and "length (writeBuffer p) = 9" and "unat s \<le> 6"
  shows "writeValue p s v =
     (let wb = (writeBuffer p)[1 := 64, 2 + unat s := v] in
      case sys_write f (chan f) wb of
        (Inl e, c) \<Rightarrow> (Inl (System_error e ''Failed to write to file''),
                       p\<lparr>file_member := recording (f\<lparr>chan := c\<rparr>) (log @ [Write_call wb]),
                         writeBuffer := wb\<rparr>)
      | (Inr n, c) \<Rightarrow> (Inr (),
                       p\<lparr>file_member := recording (f\<lparr>chan := c\<rparr>) (log @ [Write_call wb]),
                         writeBuffer := wb\<rparr>))"
  using assms
  by (simp add: writeValue_def array_put_def writeValue_index_def File_write_recording Let_def
      split: prod.splits sum.splits)

text \<open>
  Wrapping changes nothing but the log: on a Processor over \<open>recording f log\<close> each
  operation returns what it returns over \<open>f\<close>, and leaves the same buffers and the same
  state of the device.
\<close>

lemma recording_transparent:
  assumes "file_member p = recording f log"
    and q_def: "q = \<lparr>file_member = f, readBuffer = readBuffer p, writeBuffer = writeBuffer p\<rparr>"
  shows "fst (readType p s) = fst (readType q s)
       \<and> readBuffer (snd (readType p s)) = readBuffer (snd (readType q s))
       \<and> writeBuffer (snd (readType p s)) = writeBuffer (snd (readType q s))
       \<and> fst (chan (file_member (snd (readType p s)))) = chan (file_member (snd (readType q s)))
       \<and> fst (readValue p s) = fst (readValue q s)
       \<and> readBuffer (snd (readValue p s)) = readBuffer (snd (readValue q s))
       \<and> writeBuffer (snd (readValue p s)) = writeBuffer (snd (readValue q s))
       \<and> fst (chan (file_member (snd (readValue p s)))) = chan (file_member (snd (readValue q s)))
       \<and> fst (writeValue p s v) = fst (writeValue q s v)
       \<and> readBuffer (snd (writeValue p s v)) = readBuffer (snd (writeValue q s v))
       \<and> writeBuffer (snd (writeValue p s v)) = writeBuffer (snd (writeValue q s v))
       \<and> fst (chan (file_member (snd (writeValue p s v)))) = chan (file_member (snd (writeValue q s v)))"
proof -
  have r: "fst (File_read (recording f log) d) = fst (File_read f d)
         \<and> fst (chan (snd (File_read (recording f log) d))) = chan (snd (File_read f d))" for d
  proof (cases "sys_read f (chan f) (length d)")
    case (Pair x c)
    then show ?thesis
      by (cases x) (simp_all add: File_read_recording chan_recording File_read_def [of f] Let_def)
  qed
  have w: "fst (File_write (recording f log) d) = fst (File_write f d)
         \<and> fst (chan (snd (File_write (recording f log) d))) = chan (snd (File_write f d))" for d
  proof (cases "sys_write f (chan f) d")
    case (Pair x c)
    then show ?thesis
      by (cases x) (simp_all add: File_write_recording chan_recording File_write_def [of f])
  qed
  have rt: "fst (readType p s) = fst (readType q s)
       \<and> readBuffer (snd (readType p s)) = readBuffer (snd (readType q s))
       \<and> writeBuffer (snd (readType p s)) = writeBuffer (snd (readType q s))
       \<and> fst (chan (file_member (snd (readType p s)))) = chan (file_member (snd (readType q s)))"
    using r [of "readBuffer p"] assms(1)
    by (cases "File_read (recording f log) (readBuffer p)"; cases "File_read f (readBuffer p)")
      (auto simp: readType_def q_def split: sum.splits)
  have rv: "fst (readValue p s) = fst (readValue q s)
       \<and> readBuffer (snd (readValue p s)) = readBuffer (snd (readValue q s))
       \<and> writeBuffer (snd (readValue p s)) = writeBuffer (snd (readValue q s))
       \<and> fst (chan (file_member (snd (readValue p s)))) = chan (file_member (snd (readValue q s)))"
    using r [of "readBuffer p"] assms(1)
    by (cases "File_read (recording f log) (readBuffer p)"; cases "File_read f (readBuffer p)")
      (auto simp: readValue_def q_def split: sum.splits)
  have wv: "fst (writeValue p s v) = fst (writeValue q s v)
       \<and> readBuffer (snd (writeValue p s v)) = readBuffer (snd (writeValue q s v))
       \<and> writeBuffer (snd (writeValue p s v)) = writeBuffer (snd (writeValue q s v))
       \<and> fst (chan (file_member (snd (writeValue p s v)))) = chan (file_member (snd (writeValue q s v)))"
  proof (cases "array_put (writeBuffer p) 1 64")
    case (Inl e)
    then show ?thesis using assms(1) by (simp add: writeValue_def q_def chan_recording)
  next
    case wb1: (Inr wb1)
    show ?thesis
    proof (cases "array_put wb1 (writeValue_index s) v")
      case (Inl e)
      then show ?thesis using wb1 assms(1) by (simp add: writeValue_def q_def chan_recording)
    next
      case (Inr wb2)
      then show ?thesis
        using wb1 assms(1) w [of wb2]
        by (cases "File_write (recording f log) wb2"; cases "File_write f wb2")
          (simp add: writeValue_def q_def)
    qed
  qed
  from rt rv wv show ?thesis by simp
qed

text \<open>
  C2. For a slot in {0, 1}, on a Processor whose two buffers are the 9-byte arrays:
  \<open>readType\<close> makes one read of 9 bytes and returns the byte of the read buffer at
  offset 4 + 2 * slot; \<open>readValue\<close> makes one read of 9 bytes and returns the byte at
  offset 3 + 2 * slot; \<open>writeValue\<close> sets offset 1 of the write buffer to 64 and offset
  2 + slot to the value, and hands the whole 9-byte write buffer to one write. A failed
  read or write is the exception of \<open>File\<close>.
\<close>

theorem Processor_protocol:
  assumes "unat s \<le> 1" and "length (readBuffer p) = 9" and "length (writeBuffer p) = 9"
    and "file_member p = recording f log"
  shows "(case readType p s of (r, p') \<Rightarrow>
            calls p' = log @ [Read_call 9] \<and> length (readBuffer p') = 9 \<and>
            writeBuffer p' = writeBuffer p \<and>
            (case fst (sys_read f (chan f) 9) of
               Inl e \<Rightarrow> r = Inl (System_error e ''Failed to read from file'') \<and>
                   readBuffer p' = readBuffer p
             | Inr bs \<Rightarrow> r = Inr (readBuffer p' ! (4 + unat s * 2)) \<and>
                   readBuffer p' = take 9 bs @ drop (length (take 9 bs)) (readBuffer p)))
       \<and> (case readValue p s of (r, p') \<Rightarrow>
            calls p' = log @ [Read_call 9] \<and> length (readBuffer p') = 9 \<and>
            writeBuffer p' = writeBuffer p \<and>
            (case fst (sys_read f (chan f) 9) of
               Inl e \<Rightarrow> r = Inl (System_error e ''Failed to read from file'') \<and>
                   readBuffer p' = readBuffer p
             | Inr bs \<Rightarrow> r = Inr (readBuffer p' ! (3 + unat s * 2)) \<and>
                   readBuffer p' = take 9 bs @ drop (length (take 9 bs)) (readBuffer p)))
       \<and> (case writeValue p s v of (r, p') \<Rightarrow>
            calls p' = log @ [Write_call (writeBuffer p')] \<and> length (writeBuffer p') = 9 \<and>
            writeBuffer p' = (writeBuffer p)[1 := 64, 2 + unat s := v] \<and>
            writeBuffer p' ! 1 = 64 \<and> writeBuffer p' ! (2 + unat s) = v \<and>
            readBuffer p' = readBuffer p \<and>
            (case fst (sys_write f (chan f) (writeBuffer p')) of
               Inl e \<Rightarrow> r = Inl (System_error e ''Failed to write to file'')
             | Inr n \<Rightarrow> r = Inr ()))"
proof -
  have rt: "case readType p s of (r, p') \<Rightarrow>
            calls p' = log @ [Read_call 9] \<and> length (readBuffer p') = 9 \<and>
            writeBuffer p' = writeBuffer p \<and>
            (case fst (sys_read f (chan f) 9) of
               Inl e \<Rightarrow> r = Inl (System_error e ''Failed to read from file'') \<and>
                   readBuffer p' = readBuffer p
             | Inr bs \<Rightarrow> r = Inr (readBuffer p' ! (4 + unat s * 2)) \<and>
                   readBuffer p' = take 9 bs @ drop (length (take 9 bs)) (readBuffer p))"
    using assms
    by (auto simp: readType_recording readType_index_def array_at_def calls_def chan_recording
        split: prod.splits sum.splits)
  have rv: "case readValue p s of (r, p') \<Rightarrow>
            calls p' = log @ [Read_call 9] \<and> length (readBuffer p') = 9 \<and>
            writeBuffer p' = writeBuffer p \<and>
            (case fst (sys_read f (chan f) 9) of
               Inl e \<Rightarrow> r = Inl (System_error e ''Failed to read from file'') \<and>
                   readBuffer p' = readBuffer p
             | Inr bs \<Rightarrow> r = Inr (readBuffer p' ! (3 + unat s * 2)) \<and>
                   readBuffer p' = take 9 bs @ drop (length (take 9 bs)) (readBuffer p))"
    using assms
    by (auto simp: readValue_recording readValue_index_def array_at_def calls_def chan_recording
        split: prod.splits sum.splits)
  have s6: "unat s \<le> 6" using assms(1) by simp
  have wv: "case writeValue p s v of (r, p') \<Rightarrow>
            calls p' = log @ [Write_call (writeBuffer p')] \<and> length (writeBuffer p') = 9 \<and>
            writeBuffer p' = (writeBuffer p)[1 := 64, 2 + unat s := v] \<and>
            writeBuffer p' ! 1 = 64 \<and> writeBuffer p' ! (2 + unat s) = v \<and>
            readBuffer p' = readBuffer p \<and>
            (case fst (sys_write f (chan f) (writeBuffer p')) of
               Inl e \<Rightarrow> r = Inl (System_error e ''Failed to write to file'')
             | Inr n \<Rightarrow> r = Inr ())"
    using assms(1,3)
    by (auto simp: writeValue_recording[OF assms(4) assms(3) s6] Let_def calls_def chan_recording
        split: prod.splits sum.splits)
  from rt rv wv show ?thesis by simp
qed


theorem Processor_protocol_witness:
  "unat (1 :: u8) \<le> 1
   \<and> fst (readType (Processor_ctor (recording (steady_file [10, 11, 12, 13, 14, 15, 16, 17, 18]) [])) 1)
       = Inr 16
   \<and> calls (snd (readType (Processor_ctor (recording (steady_file [10, 11, 12, 13, 14, 15, 16, 17, 18]) [])) 1))
       = [Read_call 9]
   \<and> fst (readValue (Processor_ctor (recording (steady_file [10, 11, 12, 13, 14, 15, 16, 17, 18]) [])) 1)
       = Inr 15
   \<and> fst (writeValue (Processor_ctor (recording (steady_file [10, 11, 12, 13, 14, 15, 16, 17, 18]) [])) 1 7)
       = Inr ()
   \<and> calls (snd (writeValue (Processor_ctor (recording (steady_file [10, 11, 12, 13, 14, 15, 16, 17, 18]) [])) 1 7))
       = [Write_call [0, 64, 0, 7, 0, 0, 0, 0, 0]]"
  using Processor_protocol [of 1 "Processor_ctor (recording (steady_file [10, 11, 12, 13, 14, 15, 16, 17, 18]) [])"
      "steady_file [10, 11, 12, 13, 14, 15, 16, 17, 18]" "[]" 7]
  by (simp add: Processor_ctor_def steady_file_def case_prod_beta numeral_eq_Suc)

text \<open>
  C7. The write buffer lives across calls: after \<open>writeValue(0, a)\<close> and then
  \<open>writeValue(1, b)\<close> on one Processor, the second report handed to the channel has
  \<open>a\<close> at offset 2 and \<open>b\<close> at offset 3 (for the values 10 and 20 too), whether the
  writes succeed or throw.
\<close>

theorem sticky_write_buffer:
  assumes "length (writeBuffer p) = 9" and "file_member p = recording f log"
  shows "calls (snd (writeValue (snd (writeValue p 0 a)) 1 b))
           = log @ [Write_call ((writeBuffer p)[1 := 64, 2 := a]),
                    Write_call ((writeBuffer p)[1 := 64, 2 := a, 3 := b])]
         \<and> length ((writeBuffer p)[1 := 64, 2 := a, 3 := b]) = 9
         \<and> (writeBuffer p)[1 := 64, 2 := a, 3 := b] ! 2 = a
         \<and> (writeBuffer p)[1 := 64, 2 := a, 3 := b] ! 3 = b"
proof -
  obtain r1 p1 where w1: "writeValue p 0 a = (r1, p1)" by (cases "writeValue p 0 a")
  have "\<exists>f1. file_member p1 = recording f1 (log @ [Write_call ((writeBuffer p)[1 := 64, 2 := a])])
          \<and> writeBuffer p1 = (writeBuffer p)[1 := 64, 2 := a]"
    using w1 writeValue_recording [OF assms(2) assms(1), of 0 a]
    by (auto simp: Let_def split: prod.splits sum.splits)
  then obtain f1 where f1: "file_member p1 = recording f1 (log @ [Write_call ((writeBuffer p)[1 := 64, 2 := a])])"
    and wb1: "writeBuffer p1 = (writeBuffer p)[1 := 64, 2 := a]" by blast
  have len1: "length (writeBuffer p1) = 9" using wb1 assms(1) by simp
  have "calls (snd (writeValue p1 1 b))
          = (log @ [Write_call ((writeBuffer p)[1 := 64, 2 := a])]) @ [Write_call ((writeBuffer p1)[1 := 64, 3 := b])]"
    using writeValue_recording [OF f1 len1, of 1 b]
    by (auto simp: Let_def calls_def chan_recording split: prod.splits sum.splits)
  moreover have "(writeBuffer p1)[1 := 64, 3 := b] = (writeBuffer p)[1 := 64, 2 := a, 3 := b]"
    using assms(1) by (simp add: wb1 list_update_swap)
  ultimately show ?thesis using w1 assms(1) by simp
qed

theorem sticky_write_buffer_witness:
  "reports (calls (snd (writeValue (snd (writeValue
       (Processor_ctor (recording (steady_file [10, 11, 12, 13, 14, 15, 16, 17, 18]) [])) 0 10)) 1 20)))
     = [[0, 64, 10, 0, 0, 0, 0, 0, 0], [0, 64, 10, 20, 0, 0, 0, 0, 0]]"
  using sticky_write_buffer [of "Processor_ctor (recording (steady_file [10, 11, 12, 13, 14, 15, 16, 17, 18]) [])"
      "steady_file [10, 11, 12, 13, 14, 15, 16, 17, 18]" "[]" 10 20]
  by (simp add: Processor_ctor_def numeral_eq_Suc)

section \<open>Buffer bounds\<close>

lemma File_read_length:
  "File_read f data = (Inr buf, f') \<Longrightarrow> length buf = length data"
  by (auto simp: File_read_def Let_def split: prod.splits sum.splits)

lemma File_read_error:
  "File_read f data = (Inl e, f') \<Longrightarrow> \<exists>c. e = System_error c ''Failed to read from file''"
  by (auto simp: File_read_def Let_def split: prod.splits sum.splits)

lemma File_write_error:
  "File_write f data = (Inl e, f') \<Longrightarrow> \<exists>c. e = System_error c ''Failed to write to file''"
  by (auto simp: File_write_def split: prod.splits sum.splits)

lemma readType_no_UB:
  assumes "readType_index s < 9" and "length (readBuffer p) = 9"
  shows "fst (readType p s) \<noteq> Inl Undefined_behaviour \<and> length (readBuffer (snd (readType p s))) = 9"
proof (cases "File_read (file_member p) (readBuffer p)")
  case (Pair r f)
  show ?thesis
  proof (cases r)
    case (Inl e)
    then show ?thesis using Pair assms File_read_error [of "file_member p" "readBuffer p" e f]
      by (auto simp: readType_def)
  next
    case (Inr buf)
    then have "length buf = 9" using Pair File_read_length assms(2) by fastforce
    then show ?thesis using Pair Inr assms by (simp add: readType_def array_at_def)
  qed
qed

lemma readValue_no_UB:
  assumes "readValue_index s < 9" and "length (readBuffer p) = 9"
  shows "fst (readValue p s) \<noteq> Inl Undefined_behaviour \<and> length (readBuffer (snd (readValue p s))) = 9"
proof (cases "File_read (file_member p) (readBuffer p)")
  case (Pair r f)
  show ?thesis
  proof (cases r)
    case (Inl e)
    then show ?thesis using Pair assms File_read_error [of "file_member p" "readBuffer p" e f]
      by (auto simp: readValue_def)
  next
    case (Inr buf)
    then have "length buf = 9" using Pair File_read_length assms(2) by fastforce
    then show ?thesis using Pair Inr assms by (simp add: readValue_def array_at_def)
  qed
qed

lemma writeValue_no_UB:
  assumes "writeValue_index s < 9" and "length (writeBuffer p) = 9"
  shows "fst (writeValue p s v) \<noteq> Inl Undefined_behaviour \<and> length (writeBuffer (snd (writeValue p s v))) = 9"
proof (cases "File_write (file_member p) ((writeBuffer p)[1 := 64, writeValue_index s := v])")
  case (Pair r f)
  have eq: "writeValue p s v = (r, p\<lparr>file_member := f, writeBuffer := (writeBuffer p)[1 := 64, writeValue_index s := v]\<rparr>)"
    using assms Pair by (simp add: writeValue_def array_put_def)
  show ?thesis
  proof (cases r)
    case (Inl e)
    then show ?thesis using Pair eq assms(2)
        File_write_error [of "file_member p" "(writeBuffer p)[1 := 64, writeValue_index s := v]" e f]
      by auto
  next
    case (Inr u)
    then show ?thesis using eq assms(2) by simp
  qed
qed

lemma readType_slot3:
  assumes "length (readBuffer p) = 9"
  shows "case fst (File_read (file_member p) (readBuffer p)) of
             Inl e \<Rightarrow> fst (readType p 3) = Inl e
           | Inr buf \<Rightarrow> fst (readType p 3) = Inl Undefined_behaviour"
proof (cases "File_read (file_member p) (readBuffer p)")
  case (Pair r f)
  show ?thesis
  proof (cases r)
    case (Inl e)
    then show ?thesis using Pair by (simp add: readType_def)
  next
    case (Inr buf)
    then have "length buf = 9" using Pair File_read_length assms by fastforce
    then show ?thesis using Pair Inr by (simp add: readType_def array_at_def readType_index_def)
  qed
qed

text \<open>
  C9. For a slot in {0, 1} every index the three operations use lies inside the 9-byte
  buffers, at most 6 in the read buffer and at most 3 in the write buffer (both reached
  by slot 1), and no operation runs into undefined behaviour; the buffers keep their
  9 bytes. The code checks no bound: slot 7 makes \<open>writeValue\<close> store past the write
  buffer, and slot 3 makes \<open>readType\<close> read past the read buffer whenever the read
  itself succeeds. Neither is reported as an exception.
\<close>

theorem slot_bounds:
  assumes "unat s \<le> 1" and "length (readBuffer p) = 9" and "length (writeBuffer p) = 9"
  shows "readType_index s < 9 \<and> readValue_index s < 9 \<and> writeValue_index s < 9 \<and> (1 :: nat) < 9
       \<and> readType_index s \<le> 6 \<and> readValue_index s \<le> 6 \<and> writeValue_index s \<le> 3
       \<and> readType_index 1 = 6 \<and> writeValue_index 1 = 3
       \<and> fst (readType p s) \<noteq> Inl Undefined_behaviour
       \<and> fst (readValue p s) \<noteq> Inl Undefined_behaviour
       \<and> fst (writeValue p s v) \<noteq> Inl Undefined_behaviour
       \<and> length (readBuffer (snd (readType p s))) = 9
       \<and> length (readBuffer (snd (readValue p s))) = 9
       \<and> length (writeBuffer (snd (writeValue p s v))) = 9
       \<and> fst (writeValue p 7 v) = Inl Undefined_behaviour
       \<and> (case fst (File_read (file_member p) (readBuffer p)) of
             Inl e \<Rightarrow> fst (readType p 3) = Inl e
           | Inr buf \<Rightarrow> fst (readType p 3) = Inl Undefined_behaviour)"
proof -
  have idx: "readType_index s \<le> 6" "readValue_index s \<le> 5" "writeValue_index s \<le> 3"
    using assms(1) by (simp_all add: readType_index_def readValue_index_def writeValue_index_def)
  have one: "readType_index 1 = 6" "writeValue_index 1 = 3"
    by (simp_all add: readType_index_def writeValue_index_def)
  have rt: "fst (readType p s) \<noteq> Inl Undefined_behaviour \<and> length (readBuffer (snd (readType p s))) = 9"
    using idx(1) assms(2) by (intro readType_no_UB) simp_all
  have rv: "fst (readValue p s) \<noteq> Inl Undefined_behaviour \<and> length (readBuffer (snd (readValue p s))) = 9"
    using idx(2) assms(2) by (intro readValue_no_UB) simp_all
  have wv: "fst (writeValue p s v) \<noteq> Inl Undefined_behaviour \<and> length (writeBuffer (snd (writeValue p s v))) = 9"
    using idx(3) assms(3) by (intro writeValue_no_UB) simp_all
  have w7: "fst (writeValue p 7 v) = Inl Undefined_behaviour"
    using assms(3) by (simp add: writeValue_def array_put_def writeValue_index_def)
  note r3 = readType_slot3 [OF assms(2)]
  from idx one rt rv wv w7 r3 show ?thesis by simp
qed

theorem slot_bounds_witness:
  "unat (1 :: u8) \<le> 1
   \<and> readType_index 1 < 9 \<and> writeValue_index 1 < 9
   \<and> fst (readType (Processor_ctor (steady_file [10, 11, 12, 13, 14, 15, 16, 17, 18])) 1)
       \<noteq> Inl Undefined_behaviour
   \<and> fst (writeValue (Processor_ctor (steady_file [10, 11, 12, 13, 14, 15, 16, 17, 18])) 7 5)
       = Inl Undefined_behaviour
   \<and> fst (readType (Processor_ctor (steady_file [10, 11, 12, 13, 14, 15, 16, 17, 18])) 3)
       = Inl Undefined_behaviour"
  using slot_bounds [of 1 "Processor_ctor (steady_file [10, 11, 12, 13, 14, 15, 16, 17, 18])" 5]
  by (simp add: Processor_ctor_def steady_file_def File_read_def Let_def)

section \<open>The scan of the POSIX branch\<close>

lemma Hub_ctor_eq: "Hub_ctor n p f H = (Hub_at (length H) n p, H @ [Processor_ctor f])"
  by (simp add: Hub_ctor_def new_Processor_def Hub_at_def Let_def)

lemma sint_vendorId: "sint (v :: 16 word) = sint vendorId \<longleftrightarrow> v = 0x0694"
proof -
  have "sint v = sint (0x0694 :: 16 word) \<longleftrightarrow> v = 0x0694"
    by (rule word_eq_iff_signed [symmetric])
  then show ?thesis by (simp only: vendorId_def)
qed

lemma sint_productId: "sint (v :: 16 word) = sint productId \<longleftrightarrow> v = 0x0003"
proof -
  have "sint v = sint (0x0003 :: 16 word) \<longleftrightarrow> v = 0x0003"
    by (rule word_eq_iff_signed [symmetric])
  then show ?thesis by (simp only: productId_def)
qed

lemma uint_vendorId: "uint (v :: 16 word) = sint vendorId \<longleftrightarrow> v = 0x0694"
  by (simp add: vendorId_def word_uint_eq_iff)

lemma uint_productId: "uint (v :: 16 word) = sint productId \<longleftrightarrow> v = 0x0003"
  by (simp add: productId_def word_uint_eq_iff)


lemma linux_id_test:
  "(sint (v :: 16 word) = sint vendorId \<and> sint (p :: 16 word) = sint productId) \<longleftrightarrow> is_target v p"
  by (simp only: sint_vendorId sint_productId is_target_def)

lemma win32_id_test:
  "(uint (v :: 16 word) = sint vendorId \<and> uint (p :: 16 word) = sint productId) \<longleftrightarrow> is_target v p"
  by (simp only: uint_vendorId uint_productId is_target_def)

lemma try_linux_accepted:
  assumes "accepted_linux ent"
  shows "try_linux ent hubs s =
           (Inr (), hubs @ [hub_of_linux (length (heap s)) ent],
            s\<lparr>heap := heap s @ [Processor_ctor (sys_open ent)]\<rparr>)"
  using assms
  by (auto simp: accepted_linux_def try_linux_def File_ctor_def Hub_ctor_eq hub_of_linux_def
      linux_id_test Let_def split: sum.splits)

lemma try_linux_open_fails:
  assumes "fd (sys_open ent) = - 1"
  shows "try_linux ent hubs s = (Inl (System_error (open_errno ent) ''Failed to open file''), hubs, s)"
  using assms by (simp add: try_linux_def File_ctor_def)

lemma try_linux_devinfo_fails:
  assumes "fd (sys_open ent) \<noteq> - 1" and "hidiocgdevinfo ent = Inl code"
  shows "try_linux ent hubs s =
           (Inl (System_error code ''Failed to get device info''), hubs,
            s\<lparr>closed := closed s @ [fd (sys_open ent)]\<rparr>)"
  using assms by (simp add: try_linux_def File_ctor_def File_dtor_def)

lemma try_linux_mismatch:
  assumes "fd (sys_open ent) \<noteq> - 1" and "hidiocgdevinfo ent = Inr info"
    and "\<not> is_target (vendor info) (product info)"
  shows "try_linux ent hubs s = (Inr (), hubs, s\<lparr>closed := closed s @ [fd (sys_open ent)]\<rparr>)"
  using assms
  by (auto simp: try_linux_def File_ctor_def File_dtor_def linux_id_test)

lemma try_linux_name_fails:
  assumes "fd (sys_open ent) \<noteq> - 1" and "hidiocgdevinfo ent = Inr info"
    and "is_target (vendor info) (product info)" and "hidiocgname ent = Inl code"
  shows "try_linux ent hubs s =
           (Inl (System_error code ''Failed to get device name''), hubs,
            s\<lparr>closed := closed s @ [fd (sys_open ent)]\<rparr>)"
  using assms
  by (auto simp: try_linux_def File_ctor_def File_dtor_def linux_id_test)

lemma try_linux_not_accepted:
  assumes "\<not> accepted_linux ent" and "take 3 (d_name ent) = ''hid''"
  shows "\<exists>r s'. try_linux ent hubs s = (r, hubs, s') \<and> heap s' = heap s"
proof (cases "fd (sys_open ent) = - 1")
  case True
  then show ?thesis by (simp add: try_linux_open_fails)
next
  case opened: False
  show ?thesis
  proof (cases "hidiocgdevinfo ent")
    case (Inl code)
    then show ?thesis using opened by (simp add: try_linux_devinfo_fails)
  next
    case (Inr info)
    show ?thesis
    proof (cases "is_target (vendor info) (product info)")
      case False
      then show ?thesis using opened Inr by (simp add: try_linux_mismatch)
    next
      case True
      then obtain code where "hidiocgname ent = Inl code"
        using assms opened Inr by (auto simp: accepted_linux_def split: sum.splits)
      then show ?thesis using opened Inr True by (simp add: try_linux_name_fails)
    qed
  qed
qed

lemma accepted_linux_hid: "accepted_linux ent \<Longrightarrow> take 3 (d_name ent) = ''hid''"
  by (simp add: accepted_linux_def)

lemma scan_linux_result:
  "fst (scan_linux es r hubs s) = hubs @ discovered_linux (length (heap s)) es \<and>
   heap (snd (scan_linux es r hubs s))
     = heap s @ map (\<lambda>ent. Processor_ctor (sys_open ent)) (filter accepted_linux es)"
proof (induction es arbitrary: hubs s)
  case Nil
  then show ?case by simp
next
  case (Cons ent rest)
  show ?case
  proof (cases "accepted_linux ent")
    case True
    then show ?thesis
      using Cons.IH [of "hubs @ [hub_of_linux (length (heap s)) ent]"
          "s\<lparr>heap := heap s @ [Processor_ctor (sys_open ent)]\<rparr>"]
      by (simp add: try_linux_accepted accepted_linux_hid)
  next
    case False
    show ?thesis
    proof (cases "take 3 (d_name ent) = ''hid''")
      case hid: True
      obtain r' s' where t: "try_linux ent hubs s = (r', hubs, s')" and h: "heap s' = heap s"
        using try_linux_not_accepted [OF False hid] by blast
      show ?thesis
      proof (cases r')
        case (Inl e)
        then show ?thesis using t h hid False Cons.IH [of hubs "s'\<lparr>cerr := cerr s' @ [e]\<rparr>"] by simp
      next
        case (Inr u)
        then show ?thesis using t h hid False Cons.IH [of hubs s'] by simp
      qed
    next
      case False
      then show ?thesis using \<open>\<not> accepted_linux ent\<close> Cons.IH [of hubs s] by simp
    qed
  qed
qed

section \<open>The scan of the Windows branch\<close>

lemma try_win32_accepted:
  assumes "accepted_win32 iface"
  shows "try_win32 iface p hubs s =
           (Inr (), hubs @ [Hub_at (length (heap s)) (case utf8_bytes iface of Inl code \<Rightarrow> [] | Inr b \<Rightarrow> b) p],
            s\<lparr>heap := heap s @ [Processor_ctor (create_file iface)]\<rparr>)"
  using assms
  by (auto simp: accepted_win32_def try_win32_def File_ctor_def Hub_ctor_eq win32_id_test
      split: sum.splits option.splits)

lemma try_win32_open_fails:
  assumes "fd (create_file iface) = - 1"
  shows "try_win32 iface p hubs s =
           (Inl (System_error (create_file_error iface) ''Failed to open file''), hubs, s)"
  using assms by (simp add: try_win32_def File_ctor_def)

lemma try_win32_mismatch:
  assumes "fd (create_file iface) \<noteq> - 1"
    and "case hid_attributes iface of None \<Rightarrow> True | Some (v, p) \<Rightarrow> \<not> is_target v p"
  shows "try_win32 iface p hubs s = (Inr (), hubs, s\<lparr>closed := closed s @ [fd (create_file iface)]\<rparr>)"
  using assms
  by (auto simp: try_win32_def File_ctor_def File_dtor_def win32_id_test split: option.splits)

lemma try_win32_name_fails:
  assumes "fd (create_file iface) \<noteq> - 1" and "hid_attributes iface = Some (v, q)" and "is_target v q"
    and "product_string iface = Some code"
  shows "try_win32 iface p hubs s =
           (Inl (System_error code ''Failed to get device name''), hubs,
            s\<lparr>closed := closed s @ [fd (create_file iface)]\<rparr>)"
  using assms
  by (simp add: try_win32_def File_ctor_def File_dtor_def win32_id_test)

lemma try_win32_encoding_fails:
  assumes "fd (create_file iface) \<noteq> - 1" and "hid_attributes iface = Some (v, q)" and "is_target v q"
    and "product_string iface = None"
    and "case utf8_count iface of Inl code \<Rightarrow> True | Inr n \<Rightarrow> (case utf8_bytes iface of Inl code \<Rightarrow> True | Inr b \<Rightarrow> False)"
  shows "try_win32 iface p hubs s =
           (Inl (System_error (case utf8_count iface of Inl code \<Rightarrow> code
                                | Inr n \<Rightarrow> (case utf8_bytes iface of Inl code \<Rightarrow> code | Inr b \<Rightarrow> 0))
                  ''Failed to convert wide char to UTF-8''), hubs,
            s\<lparr>closed := closed s @ [fd (create_file iface)]\<rparr>)"
  using assms
  by (auto simp: try_win32_def File_ctor_def File_dtor_def win32_id_test split: sum.splits)

lemma try_win32_not_accepted:
  assumes "\<not> accepted_win32 iface"
  shows "\<exists>r s'. try_win32 iface p hubs s = (r, hubs, s') \<and> heap s' = heap s \<and>
           (r = Inr () \<or> (\<exists>code what. r = Inl (System_error code what)))"
proof (cases "fd (create_file iface) = - 1")
  case True
  then show ?thesis by (simp add: try_win32_open_fails)
next
  case opened: False
  show ?thesis
  proof (cases "case hid_attributes iface of None \<Rightarrow> True | Some (v, p) \<Rightarrow> \<not> is_target v p")
    case True
    then show ?thesis using opened by (simp add: try_win32_mismatch)
  next
    case False
    then obtain v q where a: "hid_attributes iface = Some (v, q)" and t: "is_target v q"
      by (auto split: option.splits)
    show ?thesis
    proof (cases "product_string iface")
      case (Some code)
      then show ?thesis using opened a t by (simp add: try_win32_name_fails)
    next
      case None
      then have "case utf8_count iface of Inl code \<Rightarrow> True
                 | Inr n \<Rightarrow> (case utf8_bytes iface of Inl code \<Rightarrow> True | Inr b \<Rightarrow> False)"
        using assms opened a t by (auto simp: accepted_win32_def split: sum.splits)
      then show ?thesis using opened a t None try_win32_encoding_fails [of iface v q p hubs s] by simp
    qed
  qed
qed


lemma fst_unwind: "fst (unwind e hubs s) = Inl e"
  by (simp add: unwind_def)

lemma scan_win32_step:
  assumes "detail_query iface = Inr p"
    and "case size_query iface of None \<Rightarrow> True | Some code \<Rightarrow> code = ERROR_INSUFFICIENT_BUFFER"
    and "malloc_ok iface"
  shows "\<exists>s'. scan_win32 (Inr iface # rest) hubs s
           = scan_win32 rest (if accepted_win32 iface then hubs @ [hub_of_win32 (length (heap s)) iface] else hubs) s'
         \<and> heap s' = (if accepted_win32 iface then heap s @ [Processor_ctor (create_file iface)] else heap s)"
proof (cases "accepted_win32 iface")
  case True
  then show ?thesis
    using assms by (auto simp: try_win32_accepted hub_of_win32_def split: option.splits)
next
  case False
  obtain r s' where t: "try_win32 iface p hubs s = (r, hubs, s')" and h: "heap s' = heap s"
    and r: "r = Inr () \<or> (\<exists>code what. r = Inl (System_error code what))"
    using try_win32_not_accepted [OF False, of p hubs s] by blast
  from r show ?thesis
  proof
    assume "r = Inr ()"
    then show ?thesis using assms t h False by (auto split: option.splits)
  next
    assume "\<exists>code what. r = Inl (System_error code what)"
    then show ?thesis using assms t h False by (auto split: option.splits)
  qed
qed

lemma scan_win32_result:
  "fst (scan_win32 ifs hubs s) =
     (case enumeration_error ifs of
        Some e \<Rightarrow> Inl e
      | None \<Rightarrow> Inr (hubs @ discovered_win32 (length (heap s)) ifs))"
proof (induction ifs arbitrary: hubs s)
  case Nil
  then show ?case by simp
next
  case (Cons x rest)
  show ?case
  proof (cases x)
    case (Inl code)
    then show ?thesis by (simp add: fst_unwind)
  next
    case (Inr iface)
    show ?thesis
    proof (cases "enumerated iface")
      case False
      then show ?thesis using Inr
        by (auto simp: enumerated_def fst_unwind split: option.splits sum.splits)
    next
      case True
      then obtain p where p: "detail_query iface = Inr p"
        and q: "case size_query iface of None \<Rightarrow> True | Some code \<Rightarrow> code = ERROR_INSUFFICIENT_BUFFER"
        and m: "malloc_ok iface"
        by (auto simp: enumerated_def split: sum.splits)
      obtain s' where step: "scan_win32 (Inr iface # rest) hubs s
           = scan_win32 rest (if accepted_win32 iface then hubs @ [hub_of_win32 (length (heap s)) iface] else hubs) s'"
        and h: "heap s' = (if accepted_win32 iface then heap s @ [Processor_ctor (create_file iface)] else heap s)"
        using scan_win32_step [OF p q m, of rest hubs s] by blast
      have e: "enumeration_error (Inr iface # rest) = enumeration_error rest"
        using p q m by (auto split: option.splits)
      show ?thesis
        unfolding Inr step e
        by (simp add: Cons.IH h split: option.splits)
    qed
  qed
qed

section \<open>Devices on an echoing channel\<close>

lemma echo_stub_chan: "(echo_stub report)\<lparr>chan := c\<rparr> = echo_stub c"
  by (simp add: echo_stub_def)

lemma File_write_echo:
  "File_write (echo_stub report) wb = (Inr (), echo_stub (report[3 := wb ! 2, 5 := wb ! 3]))"
  by (simp add: File_write_def echo_stub_def)

lemma File_read_echo:
  assumes "length report = 9" and "length data = 9"
  shows "File_read (echo_stub report) data = (Inr report, echo_stub report)"
  using assms by (simp add: File_read_def echo_stub_def Let_def)

lemma writeValue_echo:
  assumes "file_member p = echo_stub report" and "length (writeBuffer p) = 9" and "unat s \<le> 1"
  shows "writeValue p s v =
           (Inr (), p\<lparr>file_member := echo_stub (report[3 := (writeBuffer p)[1 := 64, 2 + unat s := v] ! 2,
                                                       5 := (writeBuffer p)[1 := 64, 2 + unat s := v] ! 3]),
                      writeBuffer := (writeBuffer p)[1 := 64, 2 + unat s := v]\<rparr>)"
  using assms
  by (simp add: writeValue_def array_put_def writeValue_index_def File_write_echo)

lemma readValue_echo:
  assumes "file_member p = echo_stub report" and "length report = 9" and "length (readBuffer p) = 9"
    and "unat s \<le> 1"
  shows "fst (readValue p s) = Inr (report ! (3 + unat s * 2))"
  using assms
  by (simp add: readValue_def File_read_echo array_at_def readValue_index_def)

lemma deref_update: "a < length H \<Longrightarrow> deref (H[a := p]) a = Some p"
  by (simp add: deref_def)

lemma deref_Some: "deref H a = Some p \<Longrightarrow> a < length H"
  by (simp add: deref_def split: if_splits)

lemma getType_at:
  "deref H a = Some p \<Longrightarrow>
   getType \<lparr>slot = s, Device.processor = a\<rparr> H =
     (case fst (readType p s) of Inl e \<Rightarrow> Inl e | Inr b \<Rightarrow> Inr (getDeviceType b),
      H[a := snd (readType p s)])"
  by (simp add: getType_def split: prod.splits sum.splits)

lemma getValue_at:
  "deref H a = Some p \<Longrightarrow>
   getValue \<lparr>slot = s, Device.processor = a\<rparr> H = (fst (readValue p s), H[a := snd (readValue p s)])"
  by (simp add: getValue_def split: prod.splits)

lemma setValue_at:
  "deref H a = Some p \<Longrightarrow>
   setValue \<lparr>slot = s, Device.processor = a\<rparr> v H = (fst (writeValue p s v), H[a := snd (writeValue p s v)])"
  by (simp add: setValue_def split: prod.splits)

text \<open>
  C8. On a channel that copies the value bytes of each report written to where a read
  finds them, \<open>setValue(v)\<close> on the Device of slot 0 or 1 followed at once by
  \<open>getValue()\<close> on the same Device returns \<open>v\<close>, for every byte \<open>v\<close> and whatever
  the Processor did before.
\<close>

theorem set_then_get_echo:
  assumes "unat s \<le> 1" and "deref H a = Some p" and "file_member p = echo_stub report"
    and "length report = 9" and "length (readBuffer p) = 9" and "length (writeBuffer p) = 9"
  shows "fst (setValue \<lparr>slot = s, Device.processor = a\<rparr> v H) = Inr ()
       \<and> fst (getValue \<lparr>slot = s, Device.processor = a\<rparr>
                (snd (setValue \<lparr>slot = s, Device.processor = a\<rparr> v H))) = Inr v"
proof -
  define wb where "wb = (writeBuffer p)[1 := 64, 2 + unat s := v]"
  define report' where "report' = report[3 := wb ! 2, 5 := wb ! 3]"
  define p' where "p' = p\<lparr>file_member := echo_stub report', writeBuffer := wb\<rparr>"
  have a: "a < length H" using assms(2) by (rule deref_Some)
  have w: "writeValue p s v = (Inr (), p')"
    unfolding p'_def report'_def wb_def using assms(3,6,1) by (rule writeValue_echo)
  have set: "setValue \<lparr>slot = s, Device.processor = a\<rparr> v H = (Inr (), H[a := p'])"
    using setValue_at [OF assms(2), of s v] w by simp
  have d: "deref (H[a := p']) a = Some p'" using a by (rule deref_update)
  have len: "length report' = 9" using assms(4) by (simp add: report'_def)
  have rv: "fst (readValue p' s) = Inr (report' ! (3 + unat s * 2))"
    using assms(1,5) len by (intro readValue_echo) (simp_all add: p'_def)
  have val: "report' ! (3 + unat s * 2) = v"
  proof -
    consider (zero) "3 + unat s * 2 = 3" and "2 + unat s = 2"
      | (one) "3 + unat s * 2 = 5" and "2 + unat s = 3"
    proof -
      have "unat s = 0 \<or> unat s = 1" using assms(1) by arith
      then have "(3 + unat s * 2 = 3 \<and> 2 + unat s = 2) \<or> (3 + unat s * 2 = 5 \<and> 2 + unat s = 3)"
        by auto
      then show ?thesis using zero one by blast
    qed
    then show ?thesis
    proof cases
      case zero
      show ?thesis unfolding report'_def wb_def zero using assms(4,6) by simp
    next
      case one
      show ?thesis unfolding report'_def wb_def one using assms(4,6) by simp
    qed
  qed
  have "fst (getValue \<lparr>slot = s, Device.processor = a\<rparr> (H[a := p'])) = Inr v"
    using getValue_at [OF d, of s] rv val by simp
  then show ?thesis using set by simp
qed

theorem set_then_get_echo_witness:
  "(let h = fst (Hub_ctor ''hub'' ''/dev/usb/hiddev0'' (echo_stub [0, 0, 0, 0, 0, 0, 0, 0, 0]) []);
        H = snd (Hub_ctor ''hub'' ''/dev/usb/hiddev0'' (echo_stub [0, 0, 0, 0, 0, 0, 0, 0, 0]) []);
        d = getDevices h ! 1
    in slot d = 1 \<and> fst (setValue d 77 H) = Inr () \<and> fst (getValue d (snd (setValue d 77 H))) = Inr 77)"
  using set_then_get_echo [of 1 "[Processor_ctor (echo_stub [0, 0, 0, 0, 0, 0, 0, 0, 0])]" 0
      "Processor_ctor (echo_stub [0, 0, 0, 0, 0, 0, 0, 0, 0])" "[0, 0, 0, 0, 0, 0, 0, 0, 0]" 77]
  by (simp add: Hub_ctor_def new_Processor_def getDevices_def deref_def Processor_ctor_def Let_def)

section \<open>The unused bytes of a write report\<close>

lemma reports_append: "reports (xs @ ys) = reports xs @ reports ys"
  by (induction xs rule: reports.induct) simp_all

lemma padded_update:
  assumes "padded d" and "unat (s :: u8) \<le> 1"
  shows "padded (d[1 := 64, 2 + unat s := v])"
proof -
  have "unat s = 0 \<or> unat s = 1" using assms(2) by arith
  then show ?thesis using assms(1) by (auto simp: padded_def)
qed

lemma lifetime_inv_ctor: "lifetime_inv (Processor_ctor (recording f []))"
  by (auto simp: lifetime_inv_def Processor_ctor_def padded_def calls_def chan_recording)

lemma lifetime_inv_readType:
  assumes "lifetime_inv p"
  shows "lifetime_inv (snd (readType p s)) \<and> reports (calls (snd (readType p s))) = reports (calls p)"
proof -
  from assms obtain f log where f: "file_member p = recording f log"
    and len: "length (readBuffer p) = 9" by (auto simp: lifetime_inv_def)
  have c: "calls p = log" using f by (simp add: calls_def chan_recording)
  show ?thesis
    using assms c
    by (auto simp: readType_recording [OF f len] lifetime_inv_def calls_def chan_recording
        reports_append split: prod.splits sum.splits)
qed

lemma lifetime_inv_readValue:
  assumes "lifetime_inv p"
  shows "lifetime_inv (snd (readValue p s)) \<and> reports (calls (snd (readValue p s))) = reports (calls p)"
proof -
  from assms obtain f log where f: "file_member p = recording f log"
    and len: "length (readBuffer p) = 9" by (auto simp: lifetime_inv_def)
  have c: "calls p = log" using f by (simp add: calls_def chan_recording)
  show ?thesis
    using assms c
    by (auto simp: readValue_recording [OF f len] lifetime_inv_def calls_def chan_recording
        reports_append split: prod.splits sum.splits)
qed

lemma lifetime_inv_writeValue:
  assumes "lifetime_inv p" and "unat s \<le> 1"
  shows "lifetime_inv (snd (writeValue p s v)) \<and>
         length (reports (calls (snd (writeValue p s v)))) = Suc (length (reports (calls p)))"
proof -
  from assms obtain f log where f: "file_member p = recording f log"
    and len: "length (writeBuffer p) = 9" and pad: "padded (writeBuffer p)"
    by (auto simp: lifetime_inv_def padded_def)
  have c: "calls p = log" using f by (simp add: calls_def chan_recording)
  have s6: "unat s \<le> 6" using assms(2) by simp
  note upd = padded_update [OF pad assms(2), of v]
  show ?thesis
    using assms(1) c upd
    by (auto simp: writeValue_recording [OF f len s6] lifetime_inv_def calls_def chan_recording
        reports_append Let_def split: prod.splits sum.splits)
qed

lemma lifetime_inv_serve_all:
  assumes "lifetime_inv p" and "\<forall>r \<in> set rs. unat (request_slot r) \<le> 1"
  shows "lifetime_inv (serve_all p rs) \<and>
         length (reports (calls (serve_all p rs))) = length (reports (calls p)) + length (filter is_write rs)"
  using assms
proof (induction rs arbitrary: p)
  case Nil
  then show ?case by simp
next
  case (Cons r rs)
  have step: "lifetime_inv (serve p r) \<and>
      length (reports (calls (serve p r))) = length (reports (calls p)) + (if is_write r then 1 else 0)"
  proof (cases r)
    case (ReadType s)
    then show ?thesis using lifetime_inv_readType [OF Cons.prems(1), of s] by simp
  next
    case (ReadValue s)
    then show ?thesis using lifetime_inv_readValue [OF Cons.prems(1), of s] by simp
  next
    case (WriteValue s v)
    then have "unat s \<le> 1" using Cons.prems(2) by simp
    then show ?thesis using WriteValue lifetime_inv_writeValue [OF Cons.prems(1), of s v] by simp
  qed
  have rest: "\<forall>r \<in> set rs. unat (request_slot r) \<le> 1" using Cons.prems(2) by simp
  show ?case using Cons.IH [OF conjunct1 [OF step] rest] step by simp
qed

lemma device_serve_at:
  assumes "Device.processor d = a" and "a < length H"
  shows "device_serve d rq H = H[a := serve (H ! a) (as_request (d, rq))]"
proof -
  have d: "d = \<lparr>slot = slot d, Device.processor = a\<rparr>" using assms(1) by simp
  have "deref H a = Some (H ! a)" using assms(2) by (simp add: deref_def)
  then show ?thesis
    using getType_at [of H a "H ! a" "slot d"] getValue_at [of H a "H ! a" "slot d"]
      setValue_at [of H a "H ! a" "slot d"] d
    by (cases rq) (simp_all del: Device.simps)
qed

lemma devices_serve_at:
  assumes "\<forall>x \<in> set rqs. Device.processor (fst x) = a" and "a < length H"
  shows "length (devices_serve rqs H) = length H \<and>
         devices_serve rqs H ! a = serve_all (H ! a) (map as_request rqs)"
  using assms
proof (induction rqs arbitrary: H)
  case Nil
  then show ?case by simp
next
  case (Cons x rest)
  obtain d rq where x: "x = (d, rq)" by (cases x)
  have a: "Device.processor d = a" using Cons.prems(1) x by simp
  have step: "device_serve d rq H = H[a := serve (H ! a) (as_request (d, rq))]"
    using a Cons.prems(2) by (rule device_serve_at)
  have "length (device_serve d rq H) = length H" by (simp add: step)
  then show ?case
    using Cons.IH [of "device_serve d rq H"] Cons.prems x by (simp add: step)
qed


lemma request_slot_as_request: "request_slot (as_request (d, rq)) = slot d"
  by (cases rq) simp_all

text \<open>
  C10, with the condition it needs. A Processor starts with a zeroed write buffer, and
  requests on slots 0 and 1 store at offsets 1, 2 and 3 only: in every report it hands
  to the channel, over any sequence of such reads and writes that succeed or throw, the
  bytes at offset 0 and at offsets 4 to 8 are zero, and each \<open>writeValue\<close> request
  transmits one report. The Processor of a Hub is reached through the two Devices of
  the Hub only, so every report it transmits has these zero bytes, whatever is asked of
  the Devices. \<open>writeValue\<close> itself checks no slot: for slots 2 to 6 it stores inside the
  buffer at offsets 4 to 8 (see the run after the theorem).
\<close>

theorem write_report_padding:
  "((\<forall>r \<in> set rs. unat (request_slot r) \<le> 1) \<longrightarrow>
      (\<forall>d \<in> set (reports (calls (serve_all (Processor_ctor (recording f [])) rs))).
         length d = 9 \<and> d ! 0 = 0 \<and> d ! 4 = 0 \<and> d ! 5 = 0 \<and> d ! 6 = 0 \<and> d ! 7 = 0 \<and> d ! 8 = 0) \<and>
      length (reports (calls (serve_all (Processor_ctor (recording f [])) rs)))
        = length (filter is_write rs))
   \<and> (case Hub_ctor n p (recording f []) H of
        (h, H') \<Rightarrow>
          (\<forall>x \<in> set rqs. fst x \<in> set (getDevices h)) \<longrightarrow>
          (\<forall>d \<in> set (reports (calls (devices_serve rqs H' ! Hub.processor h))).
             length d = 9 \<and> d ! 0 = 0 \<and> d ! 4 = 0 \<and> d ! 5 = 0 \<and> d ! 6 = 0 \<and> d ! 7 = 0 \<and> d ! 8 = 0))"
proof -
  have processor: "(\<forall>d \<in> set (reports (calls (serve_all (Processor_ctor (recording f [])) rs))).
         length d = 9 \<and> d ! 0 = 0 \<and> d ! 4 = 0 \<and> d ! 5 = 0 \<and> d ! 6 = 0 \<and> d ! 7 = 0 \<and> d ! 8 = 0) \<and>
      length (reports (calls (serve_all (Processor_ctor (recording f [])) rs)))
        = length (filter is_write rs)"
    if slots: "\<forall>r \<in> set rs. unat (request_slot r) \<le> 1" for rs
  proof -
    have "calls (Processor_ctor (recording f [])) = []"
      by (simp add: calls_def Processor_ctor_def chan_recording)
    then show ?thesis
      using lifetime_inv_serve_all [OF lifetime_inv_ctor slots, of f]
      by (auto simp: lifetime_inv_def list_all_iff padded_def)
  qed
  have hub: "\<forall>d \<in> set (reports (calls (devices_serve rqs (H @ [Processor_ctor (recording f [])]) ! length H))).
             length d = 9 \<and> d ! 0 = 0 \<and> d ! 4 = 0 \<and> d ! 5 = 0 \<and> d ! 6 = 0 \<and> d ! 7 = 0 \<and> d ! 8 = 0"
    if devs: "\<forall>x \<in> set rqs. fst x \<in> set (getDevices (Hub_at (length H) n p))"
  proof -
    have each: "Device.processor (fst x) = length H \<and> unat (slot (fst x)) \<le> 1" if "x \<in> set rqs" for x
      using devs that by (auto simp: Hub_at_def getDevices_def)
    have at: "devices_serve rqs (H @ [Processor_ctor (recording f [])]) ! length H
                = serve_all (Processor_ctor (recording f [])) (map as_request rqs)"
      using devices_serve_at [of rqs "length H" "H @ [Processor_ctor (recording f [])]"] each
      by simp
    have "\<forall>r \<in> set (map as_request rqs). unat (request_slot r) \<le> 1"
      using each by (auto simp: request_slot_as_request)
    then show ?thesis unfolding at using processor by blast
  qed
  show ?thesis using processor [of rs] hub by (simp add: Hub_ctor_eq Hub_at_def)
qed


theorem write_report_padding_witness:
  "reports (calls (serve_all (Processor_ctor (recording (steady_file [10, 11, 12, 13, 14, 15, 16, 17, 18]) []))
       [WriteValue 1 200, ReadType 0, WriteValue 0 7]))
     = [[0, 64, 0, 200, 0, 0, 0, 0, 0], [0, 64, 7, 200, 0, 0, 0, 0, 0]]
   \<and> reports (calls (devices_serve
         [(\<lparr>slot = 1, Device.processor = 0\<rparr>, SetValue 200), (\<lparr>slot = 0, Device.processor = 0\<rparr>, GetValue),
          (\<lparr>slot = 0, Device.processor = 0\<rparr>, SetValue 7)]
         (snd (Hub_ctor ''LEGO USB Hub'' ''/dev/usb/hiddev2''
                 (recording (steady_file [10, 11, 12, 13, 14, 15, 16, 17, 18]) []) [])) ! 0))
     = [[0, 64, 0, 200, 0, 0, 0, 0, 0], [0, 64, 7, 200, 0, 0, 0, 0, 0]]"
  using write_report_padding [where rs = "[WriteValue 1 200, ReadType 0, WriteValue 0 7]"
      and f = "steady_file [10, 11, 12, 13, 14, 15, 16, 17, 18]"
      and n = "''LEGO USB Hub''" and p = "''/dev/usb/hiddev2''" and H = "[]"
      and rqs = "[(\<lparr>slot = 1, Device.processor = 0\<rparr>, SetValue 200),
                  (\<lparr>slot = 0, Device.processor = 0\<rparr>, GetValue),
                  (\<lparr>slot = 0, Device.processor = 0\<rparr>, SetValue 7)]"]
  by (simp add: Processor_ctor_def steady_file_def recording_def calls_def writeValue_def
      readType_def readValue_def File_read_def File_write_def array_put_def array_at_def
      writeValue_index_def readType_index_def readValue_index_def Let_def numeral_eq_Suc
      Hub_ctor_def new_Processor_def getValue_def setValue_def deref_def)

text \<open>
  Without the condition on the slot the statement fails: \<open>writeValue(4, 99)\<close> on a new
  Processor stays inside the 9-byte buffer, returns normally and transmits a report
  whose byte at offset 6 is 99.
\<close>

theorem write_report_padding_counterexample:
  "fst (writeValue (Processor_ctor (recording (steady_file [10, 11, 12, 13, 14, 15, 16, 17, 18]) [])) 4 99)
     = Inr ()
   \<and> reports (calls (serve_all
         (Processor_ctor (recording (steady_file [10, 11, 12, 13, 14, 15, 16, 17, 18]) []))
         [WriteValue 4 99]))
       = [[0, 64, 0, 0, 0, 0, 99, 0, 0]]
   \<and> [0, 64, 0, 0, 0, 0, 99, 0, 0] ! 6 \<noteq> (0 :: u8)"
proof -
  let ?f = "steady_file [10, 11, 12, 13, 14, 15, 16, 17, 18]"
  let ?p = "Processor_ctor (recording ?f [])"
  have zeros: "replicate 9 (0 :: u8) = [0, 0, 0, 0, 0, 0, 0, 0, 0]"
    by (simp add: numeral_eq_Suc)
  have f: "file_member ?p = recording ?f []" and len: "length (writeBuffer ?p) = 9"
    by (simp_all add: Processor_ctor_def)
  have s: "unat (4 :: u8) \<le> 6" and i: "2 + unat (4 :: u8) = 6" by simp_all
  have wb: "(writeBuffer ?p)[1 := 64, 6 := 99] = [0, 64, 0, 0, 0, 0, 99, 0, 0]"
    by (simp add: Processor_ctor_def zeros)
  have w: "fst (writeValue ?p 4 99) = Inr () \<and>
           calls (snd (writeValue ?p 4 99)) = [Write_call [0, 64, 0, 0, 0, 0, 99, 0, 0]]"
    unfolding writeValue_recording [OF f len s] i wb
    by (simp add: steady_file_def calls_def chan_recording Let_def)
  have n: "[0, 64, 0, 0, 0, 0, 99, 0, 0] ! 6 \<noteq> (0 :: u8)" by simp
  from w n show ?thesis by simp
qed

section \<open>Discovery: only the target device\<close>

lemma discovered_linux_mem:
  "h \<in> set (discovered_linux a es) \<Longrightarrow> \<exists>ent \<in> set es. \<exists>k. accepted_linux ent \<and> h = hub_of_linux k ent"
  by (induction es arbitrary: a) (auto split: if_splits)

lemma enumeration_error_None:
  "enumeration_error (Inr iface # rest) = None \<longleftrightarrow> enumerated iface \<and> enumeration_error rest = None"
  by (auto simp: enumerated_def split: option.splits sum.splits)

lemma discovered_win32_mem:
  "h \<in> set (discovered_win32 a ifs) \<Longrightarrow>
   \<exists>iface k. Inr iface \<in> set ifs \<and> accepted_win32 iface \<and> h = hub_of_win32 k iface \<and>
     (enumeration_error ifs = None \<longrightarrow> enumerated iface)"
proof (induction ifs arbitrary: a)
  case Nil
  then show ?case by simp
next
  case (Cons x rest)
  show ?case
  proof (cases x)
    case (Inl code)
    then show ?thesis using Cons.prems by simp
  next
    case (Inr iface)
    show ?thesis
    proof (cases "accepted_win32 iface \<and> h = hub_of_win32 a iface")
      case True
      then show ?thesis unfolding Inr enumeration_error_None by auto
    next
      case False
      then have "h \<in> set (discovered_win32 (Suc a) rest) \<or> h \<in> set (discovered_win32 a rest)"
        using Cons.prems Inr by (auto split: if_splits)
      then obtain iface' k where "Inr iface' \<in> set rest" and "accepted_win32 iface'"
        and "h = hub_of_win32 k iface'" and "enumeration_error rest = None \<longrightarrow> enumerated iface'"
        using Cons.IH by blast
      then show ?thesis unfolding Inr enumeration_error_None by auto
    qed
  qed
qed

lemma findHubs_linux_result:
  "fst (findHubs_linux (Inr (DIR es r)) s) = Inr (discovered_linux (length (heap s)) es)"
proof -
  obtain hubs s' where e: "scan_linux es r [] s = (hubs, s')" by (cases "scan_linux es r [] s")
  then have "hubs = discovered_linux (length (heap s)) es"
    using scan_linux_result [of es r "[]" s] by simp
  then show ?thesis by (simp add: findHubs_linux_def e)
qed

lemma findHubs_win32_result:
  "fst (findHubs_win32 (Inr ifs) s) =
     (case enumeration_error ifs of
        Some e \<Rightarrow> Inl e
      | None \<Rightarrow> Inr (discovered_win32 (length (heap s)) ifs))"
  using scan_win32_result [of ifs "[]" s] by (simp add: findHubs_win32_def split: option.splits)

lemma scan_linux_mismatch:
  assumes "take 3 (d_name ent) = ''hid''" and "fd (sys_open ent) \<noteq> - 1"
    and "hidiocgdevinfo ent = Inr info" and "vendor info \<noteq> 0x0694 \<or> product info \<noteq> 0x0003"
  shows "scan_linux (ent # rest) r hubs s
           = scan_linux rest r hubs (s\<lparr>closed := closed s @ [fd (sys_open ent)]\<rparr>)"
proof -
  have "\<not> is_target (vendor info) (product info)" using assms(4) by (auto simp: is_target_def)
  then show ?thesis using assms(1) try_linux_mismatch [OF assms(2,3), of hubs s] by simp
qed

lemma enumeratedD:
  assumes "enumerated iface"
  obtains p where "detail_query iface = Inr p"
    and "case size_query iface of None \<Rightarrow> True | Some code \<Rightarrow> code = ERROR_INSUFFICIENT_BUFFER"
    and "malloc_ok iface"
  using assms by (auto simp: enumerated_def split: sum.splits)

lemma scan_win32_try:
  assumes "enumerated iface"
  shows "scan_win32 (Inr iface # rest) hubs s =
     (case try_win32 iface (case detail_query iface of Inl code \<Rightarrow> [] | Inr p \<Rightarrow> p) hubs s of
        (Inl (System_error code what), hubs', s') \<Rightarrow> scan_win32 rest hubs' s'
      | (Inl Bad_alloc, hubs', s') \<Rightarrow> unwind Bad_alloc hubs' s'
      | (Inl Undefined_behaviour, hubs', s') \<Rightarrow> unwind Undefined_behaviour hubs' s'
      | (Inr u, hubs', s') \<Rightarrow> scan_win32 rest hubs' s')"
proof -
  from assms obtain p where p: "detail_query iface = Inr p"
    and q: "case size_query iface of None \<Rightarrow> True | Some code \<Rightarrow> code = ERROR_INSUFFICIENT_BUFFER"
    and m: "malloc_ok iface"
    by (rule enumeratedD)
  have c: "\<not> (case size_query iface of None \<Rightarrow> False | Some code \<Rightarrow> code \<noteq> ERROR_INSUFFICIENT_BUFFER)"
    using q by (simp split: option.splits)
  show ?thesis by (simp add: p c m)
qed

lemma scan_win32_mismatch:
  assumes "enumerated iface" and "fd (create_file iface) \<noteq> - 1"
    and "hid_attributes iface = Some (v, q)" and "v \<noteq> 0x0694 \<or> q \<noteq> 0x0003"
  shows "scan_win32 (Inr iface # rest) hubs s
           = scan_win32 rest hubs (s\<lparr>closed := closed s @ [fd (create_file iface)]\<rparr>)"
proof -
  have "case hid_attributes iface of None \<Rightarrow> True | Some (v, p) \<Rightarrow> \<not> is_target v p"
    using assms(3,4) by (auto simp: is_target_def)
  then show ?thesis
    using try_win32_mismatch [OF assms(2), of _ hubs s]
    by (simp add: scan_win32_try [OF assms(1)] del: scan_win32.simps)
qed


text \<open>
  C3. Discovery returns no Hub of a device whose queried identifier differs from
  (0x0694, 0x0003). In both branches a candidate that was opened and answered another
  identifier is closed and the scan goes on with the same hubs; and every Hub of the
  returned list carries the path and the name of a candidate whose identifier query
  answered (0x0694, 0x0003).
\<close>

theorem findHubs_only_target:
  "(take 3 (d_name ent) = ''hid'' \<and> fd (sys_open ent) \<noteq> - 1 \<and> hidiocgdevinfo ent = Inr info \<and>
      (vendor info \<noteq> 0x0694 \<or> product info \<noteq> 0x0003)
    \<longrightarrow> scan_linux (ent # rest) r hubs s
          = scan_linux rest r hubs (s\<lparr>closed := closed s @ [fd (sys_open ent)]\<rparr>))
   \<and> (fst (findHubs_linux (Inr (DIR es r)) s) = Inr found \<longrightarrow>
       (\<forall>h \<in> set found.
         \<exists>ent \<in> set es. getPath h = ''/dev/usb/'' @ d_name ent \<and> hidiocgname ent = Inr (getName h) \<and>
           (case hidiocgdevinfo ent of
              Inl code \<Rightarrow> False
            | Inr info \<Rightarrow> vendor info = 0x0694 \<and> product info = 0x0003)))
   \<and> (enumerated iface \<and> fd (create_file iface) \<noteq> - 1 \<and> hid_attributes iface = Some (v, q) \<and>
      (v \<noteq> 0x0694 \<or> q \<noteq> 0x0003)
    \<longrightarrow> scan_win32 (Inr iface # others) hubs t
          = scan_win32 others hubs (t\<lparr>closed := closed t @ [fd (create_file iface)]\<rparr>))
   \<and> (fst (findHubs_win32 (Inr ifs) t) = Inr found' \<longrightarrow>
         (\<forall>h \<in> set found'.
            \<exists>iface. Inr iface \<in> set ifs \<and> detail_query iface = Inr (getPath h) \<and>
              utf8_bytes iface = Inr (getName h) \<and> hid_attributes iface = Some (0x0694, 0x0003)))"
proof -
  have l1: "take 3 (d_name ent) = ''hid'' \<and> fd (sys_open ent) \<noteq> - 1 \<and> hidiocgdevinfo ent = Inr info \<and>
      (vendor info \<noteq> 0x0694 \<or> product info \<noteq> 0x0003)
    \<longrightarrow> scan_linux (ent # rest) r hubs s
          = scan_linux rest r hubs (s\<lparr>closed := closed s @ [fd (sys_open ent)]\<rparr>)"
    using scan_linux_mismatch [of ent info rest r hubs s] by blast
  have l2: "fst (findHubs_linux (Inr (DIR es r)) s) = Inr found \<longrightarrow>
       (\<forall>h \<in> set found.
         \<exists>ent \<in> set es. getPath h = ''/dev/usb/'' @ d_name ent \<and> hidiocgname ent = Inr (getName h) \<and>
           (case hidiocgdevinfo ent of
              Inl code \<Rightarrow> False
            | Inr info \<Rightarrow> vendor info = 0x0694 \<and> product info = 0x0003))"
  proof (intro impI ballI)
    fix h
    assume "fst (findHubs_linux (Inr (DIR es r)) s) = Inr found" and "h \<in> set found"
    then have "h \<in> set (discovered_linux (length (heap s)) es)"
      by (simp add: findHubs_linux_result)
    then obtain ent k where "ent \<in> set es" and "accepted_linux ent" and "h = hub_of_linux k ent"
      using discovered_linux_mem by blast
    then show "\<exists>ent \<in> set es. getPath h = ''/dev/usb/'' @ d_name ent \<and> hidiocgname ent = Inr (getName h) \<and>
           (case hidiocgdevinfo ent of
              Inl code \<Rightarrow> False
            | Inr info \<Rightarrow> vendor info = 0x0694 \<and> product info = 0x0003)"
      by (intro bexI [of _ ent])
        (auto simp: accepted_linux_def hub_of_linux_def Hub_at_def getPath_def getName_def
          is_target_def split: sum.splits)
  qed
  have w1: "enumerated iface \<and> fd (create_file iface) \<noteq> - 1 \<and> hid_attributes iface = Some (v, q) \<and>
      (v \<noteq> 0x0694 \<or> q \<noteq> 0x0003)
    \<longrightarrow> scan_win32 (Inr iface # others) hubs t
          = scan_win32 others hubs (t\<lparr>closed := closed t @ [fd (create_file iface)]\<rparr>)"
    using scan_win32_mismatch [of iface v q others hubs t] by blast
  have w2: "fst (findHubs_win32 (Inr ifs) t) = Inr found' \<longrightarrow>
         (\<forall>h \<in> set found'.
            \<exists>iface. Inr iface \<in> set ifs \<and> detail_query iface = Inr (getPath h) \<and>
              utf8_bytes iface = Inr (getName h) \<and> hid_attributes iface = Some (0x0694, 0x0003))"
  proof (intro impI ballI)
    fix h
    assume f: "fst (findHubs_win32 (Inr ifs) t) = Inr found'" and h: "h \<in> set found'"
    have "found' = discovered_win32 (length (heap t)) ifs"
      using f by (simp add: findHubs_win32_result split: option.splits)
    then obtain iface k where i: "Inr iface \<in> set ifs" and a: "accepted_win32 iface"
      and hk: "h = hub_of_win32 k iface" and en: "enumeration_error ifs = None \<longrightarrow> enumerated iface"
      using h discovered_win32_mem by blast
    have e: "enumeration_error ifs = None"
      using f by (simp add: findHubs_win32_result split: option.splits)
    have d: "\<exists>p. detail_query iface = Inr p"
      using en e by (auto simp: enumerated_def split: sum.splits)
    show "\<exists>iface. Inr iface \<in> set ifs \<and> detail_query iface = Inr (getPath h) \<and>
              utf8_bytes iface = Inr (getName h) \<and> hid_attributes iface = Some (0x0694, 0x0003)"
      using i a hk d
      by (intro exI [of _ iface])
        (auto simp: accepted_win32_def hub_of_win32_def Hub_at_def getPath_def getName_def
          is_target_def split: sum.splits option.splits)
  qed
  from l1 l2 w1 w2 show ?thesis by blast
qed


lemmas sample_defs =
  os0_def sample_file_def steady_file_def linux_unopenable_def linux_other_product_def
  linux_hub_def linux_nameless_hub_def win32_interface_def win32_unopenable_def
  win32_other_product_def win32_hub_def win32_nameless_hub_def win32_unencodable_hub_def

lemmas scan_defs =
  findHubs_linux_def findHubs_win32_def try_linux_def try_win32_def File_ctor_def File_dtor_def
  Hub_ctor_def new_Processor_def vendorId_def productId_def Hub_at_def Let_def
  ERROR_INSUFFICIENT_BUFFER_def ERROR_NO_MORE_ITEMS_def

lemma linux_three_candidates:
  "findHubs_linux (Inr (DIR [linux_unopenable, linux_other_product, linux_hub] None)) os0
     = (Inr [Hub_at 0 ''LEGO USB Hub'' ''/dev/usb/hiddev2''],
        \<lparr>heap = [Processor_ctor (sample_file 5)], closed = [4],
         cerr = [System_error 13 ''Failed to open file'']\<rparr>)"
  by (simp add: sample_defs scan_defs)

lemma win32_three_candidates:
  "findHubs_win32 (Inr [Inr win32_unopenable, Inr win32_other_product, Inr win32_hub]) os0
     = (Inr [Hub_at 0 ''LEGO USB Hub'' ''hid#2''],
        \<lparr>heap = [Processor_ctor (sample_file 5)], closed = [4], cerr = []\<rparr>)"
  by (simp add: sample_defs scan_defs)


theorem findHubs_only_target_witness:
  "scan_linux [linux_other_product, linux_hub] None [] os0
     = scan_linux [linux_hub] None [] (os0\<lparr>closed := closed os0 @ [4]\<rparr>)
   \<and> fst (findHubs_linux (Inr (DIR [linux_unopenable, linux_other_product, linux_hub] None)) os0)
       = Inr [Hub_at 0 ''LEGO USB Hub'' ''/dev/usb/hiddev2'']
   \<and> (\<exists>ent \<in> set [linux_unopenable, linux_other_product, linux_hub].
         getPath (Hub_at 0 ''LEGO USB Hub'' ''/dev/usb/hiddev2'') = ''/dev/usb/'' @ d_name ent \<and>
         hidiocgdevinfo ent = Inr \<lparr>vendor = 0x0694, product = 0x0003\<rparr>)
   \<and> scan_win32 [Inr win32_other_product, Inr win32_hub] [] os0
       = scan_win32 [Inr win32_hub] [] (os0\<lparr>closed := closed os0 @ [4]\<rparr>)
   \<and> fst (findHubs_win32 (Inr [Inr win32_unopenable, Inr win32_other_product, Inr win32_hub]) os0)
       = Inr [Hub_at 0 ''LEGO USB Hub'' ''hid#2'']"
  using findHubs_only_target [where ent = linux_other_product
      and info = "\<lparr>vendor = 0x0694, product = 0x0002\<rparr>" and rest = "[linux_hub]" and r = None
      and hubs = "[]" and s = os0 and es = "[linux_unopenable, linux_other_product, linux_hub]"
      and found = "[Hub_at 0 ''LEGO USB Hub'' ''/dev/usb/hiddev2'']"
      and iface = win32_other_product and v = "0x0694" and q = "0x0002" and others = "[Inr win32_hub]"
      and t = os0 and ifs = "[Inr win32_unopenable, Inr win32_other_product, Inr win32_hub]"
      and found' = "[Hub_at 0 ''LEGO USB Hub'' ''hid#2'']"]
    linux_three_candidates win32_three_candidates
  by (simp add: sample_defs enumerated_def getPath_def Hub_at_def ERROR_INSUFFICIENT_BUFFER_def)

section \<open>Discovery: failures of one candidate\<close>

lemma scan_linux_open_fails:
  assumes "take 3 (d_name ent) = ''hid''" and "fd (sys_open ent) = - 1"
  shows "scan_linux (ent # rest) r hubs s
           = scan_linux rest r hubs
               (s\<lparr>cerr := cerr s @ [System_error (open_errno ent) ''Failed to open file'']\<rparr>)"
  using assms(1) try_linux_open_fails [OF assms(2), of hubs s] by simp

lemma scan_linux_devinfo_fails:
  assumes "take 3 (d_name ent) = ''hid''" and "fd (sys_open ent) \<noteq> - 1"
    and "hidiocgdevinfo ent = Inl code"
  shows "scan_linux (ent # rest) r hubs s
           = scan_linux rest r hubs
               (s\<lparr>closed := closed s @ [fd (sys_open ent)],
                  cerr := cerr s @ [System_error code ''Failed to get device info'']\<rparr>)"
  using assms(1) try_linux_devinfo_fails [OF assms(2,3), of hubs s] by simp

lemma scan_linux_name_fails:
  assumes "take 3 (d_name ent) = ''hid''" and "fd (sys_open ent) \<noteq> - 1"
    and "hidiocgdevinfo ent = Inr info" and "vendor info = 0x0694" and "product info = 0x0003"
    and "hidiocgname ent = Inl code"
  shows "scan_linux (ent # rest) r hubs s
           = scan_linux rest r hubs
               (s\<lparr>closed := closed s @ [fd (sys_open ent)],
                  cerr := cerr s @ [System_error code ''Failed to get device name'']\<rparr>)"
proof -
  have "is_target (vendor info) (product info)" using assms(4,5) by (simp add: is_target_def)
  then show ?thesis
    using assms(1) try_linux_name_fails [OF assms(2,3) _ assms(6), of hubs s] by simp
qed

lemma scan_win32_open_fails:
  assumes "enumerated iface" and "fd (create_file iface) = - 1"
  shows "scan_win32 (Inr iface # rest) hubs s = scan_win32 rest hubs s"
  using try_win32_open_fails [OF assms(2), of _ hubs s]
  by (simp add: scan_win32_try [OF assms(1)] del: scan_win32.simps)

lemma scan_win32_name_fails:
  assumes "enumerated iface" and "fd (create_file iface) \<noteq> - 1"
    and "hid_attributes iface = Some (0x0694, 0x0003)" and "product_string iface = Some code"
  shows "scan_win32 (Inr iface # rest) hubs s
           = scan_win32 rest hubs (s\<lparr>closed := closed s @ [fd (create_file iface)]\<rparr>)"
proof -
  have "is_target 0x0694 0x0003" by (simp add: is_target_def)
  then show ?thesis
    using try_win32_name_fails [OF assms(2,3) _ assms(4), of _ hubs s]
    by (simp add: scan_win32_try [OF assms(1)] del: scan_win32.simps)
qed

lemma scan_win32_encoding_fails:
  assumes "enumerated iface" and "fd (create_file iface) \<noteq> - 1"
    and "hid_attributes iface = Some (0x0694, 0x0003)" and "product_string iface = None"
    and "(\<exists>code. utf8_count iface = Inl code) \<or> (\<exists>code. utf8_bytes iface = Inl code)"
  shows "scan_win32 (Inr iface # rest) hubs s
           = scan_win32 rest hubs (s\<lparr>closed := closed s @ [fd (create_file iface)]\<rparr>)"
proof -
  have t: "is_target 0x0694 0x0003" by (simp add: is_target_def)
  have c: "case utf8_count iface of Inl code \<Rightarrow> True
           | Inr n \<Rightarrow> (case utf8_bytes iface of Inl code \<Rightarrow> True | Inr b \<Rightarrow> False)"
    using assms(5) by (auto split: sum.splits)
  show ?thesis
    using try_win32_encoding_fails [OF assms(2,3) t assms(4) c, of _ hubs s]
    by (simp add: scan_win32_try [OF assms(1)] del: scan_win32.simps)
qed

lemma scan_win32_no_attributes:
  assumes "enumerated iface" and "fd (create_file iface) \<noteq> - 1" and "hid_attributes iface = None"
  shows "scan_win32 (Inr iface # rest) hubs s
           = scan_win32 rest hubs (s\<lparr>closed := closed s @ [fd (create_file iface)]\<rparr>)"
proof -
  have "case hid_attributes iface of None \<Rightarrow> True | Some (v, p) \<Rightarrow> \<not> is_target v p"
    using assms(3) by simp
  then show ?thesis
    using try_win32_mismatch [OF assms(2), of _ hubs s]
    by (simp add: scan_win32_try [OF assms(1)] del: scan_win32.simps)
qed

lemma discovered_linux_none:
  "(\<forall>ent \<in> set es. \<not> accepted_linux ent) \<Longrightarrow> discovered_linux a es = []"
  by (induction es) simp_all

lemma discovered_linux_complete:
  assumes "h \<in> set (discovered_linux a es)"
  shows "\<exists>ent \<in> set es. accepted_linux ent \<and> hidiocgname ent = Inr (getName h) \<and>
           getPath h = ''/dev/usb/'' @ d_name ent \<and>
           h = Hub_at (Hub.processor h) (getName h) (getPath h)"
proof -
  obtain ent k where "ent \<in> set es" and "accepted_linux ent" and "h = hub_of_linux k ent"
    using assms discovered_linux_mem by blast
  then show ?thesis
    by (intro bexI [of _ ent])
      (auto simp: accepted_linux_def hub_of_linux_def Hub_at_def getPath_def getName_def
        split: sum.splits)
qed

text \<open>
  C5. A failure while one candidate is probed skips that candidate only. In the POSIX
  branch a failed open, a failed identifier query and a failed name query of a matching
  device are caught and printed, the descriptor is closed if it was open, and the scan
  goes on with the same hubs. In the Windows branch a failed open, a failed attribute
  query, a failed name query and a failed conversion of the name do the same, when the
  enumeration facility itself delivered the interface. Discovery then returns normally
  the Hubs of the candidates that passed every step, the empty list when none did, and
  each Hub returned is whole: built by the constructor with the name retrieved.
\<close>

theorem probe_failure_skips_candidate:
  "(take 3 (d_name ent) = ''hid'' \<and> fd (sys_open ent) = - 1
      \<longrightarrow> scan_linux (ent # rest) r hubs s
            = scan_linux rest r hubs
                (s\<lparr>cerr := cerr s @ [System_error (open_errno ent) ''Failed to open file'']\<rparr>))
   \<and> (take 3 (d_name ent) = ''hid'' \<and> fd (sys_open ent) \<noteq> - 1 \<and> hidiocgdevinfo ent = Inl code
      \<longrightarrow> scan_linux (ent # rest) r hubs s
            = scan_linux rest r hubs
                (s\<lparr>closed := closed s @ [fd (sys_open ent)],
                   cerr := cerr s @ [System_error code ''Failed to get device info'']\<rparr>))
   \<and> (take 3 (d_name ent) = ''hid'' \<and> fd (sys_open ent) \<noteq> - 1 \<and> hidiocgdevinfo ent = Inr info \<and>
        vendor info = 0x0694 \<and> product info = 0x0003 \<and> hidiocgname ent = Inl code
      \<longrightarrow> scan_linux (ent # rest) r hubs s
            = scan_linux rest r hubs
                (s\<lparr>closed := closed s @ [fd (sys_open ent)],
                   cerr := cerr s @ [System_error code ''Failed to get device name'']\<rparr>))
   \<and> fst (findHubs_linux (Inr (DIR es r)) s) = Inr (discovered_linux (length (heap s)) es)
   \<and> ((\<forall>ent \<in> set es. \<not> accepted_linux ent) \<longrightarrow> fst (findHubs_linux (Inr (DIR es r)) s) = Inr [])
   \<and> (\<forall>h \<in> set (discovered_linux a es).
         \<exists>ent \<in> set es. accepted_linux ent \<and> hidiocgname ent = Inr (getName h) \<and>
           getPath h = ''/dev/usb/'' @ d_name ent \<and>
           h = Hub_at (Hub.processor h) (getName h) (getPath h))
   \<and> (enumerated iface \<and> fd (create_file iface) = - 1
      \<longrightarrow> scan_win32 (Inr iface # others) hubs t = scan_win32 others hubs t)
   \<and> (enumerated iface \<and> fd (create_file iface) \<noteq> - 1 \<and> hid_attributes iface = None
      \<longrightarrow> scan_win32 (Inr iface # others) hubs t
            = scan_win32 others hubs (t\<lparr>closed := closed t @ [fd (create_file iface)]\<rparr>))
   \<and> (enumerated iface \<and> fd (create_file iface) \<noteq> - 1 \<and>
        hid_attributes iface = Some (0x0694, 0x0003) \<and>
        (product_string iface \<noteq> None \<or>
         (\<exists>code. utf8_count iface = Inl code) \<or> (\<exists>code. utf8_bytes iface = Inl code))
      \<longrightarrow> scan_win32 (Inr iface # others) hubs t
            = scan_win32 others hubs (t\<lparr>closed := closed t @ [fd (create_file iface)]\<rparr>))
   \<and> (enumeration_error ifs = None
      \<longrightarrow> fst (findHubs_win32 (Inr ifs) t) = Inr (discovered_win32 (length (heap t)) ifs))"
proof -
  have l1: "take 3 (d_name ent) = ''hid'' \<and> fd (sys_open ent) = - 1
      \<longrightarrow> scan_linux (ent # rest) r hubs s
            = scan_linux rest r hubs
                (s\<lparr>cerr := cerr s @ [System_error (open_errno ent) ''Failed to open file'']\<rparr>)"
    using scan_linux_open_fails [of ent rest r hubs s] by blast
  have l2: "take 3 (d_name ent) = ''hid'' \<and> fd (sys_open ent) \<noteq> - 1 \<and> hidiocgdevinfo ent = Inl code
      \<longrightarrow> scan_linux (ent # rest) r hubs s
            = scan_linux rest r hubs
                (s\<lparr>closed := closed s @ [fd (sys_open ent)],
                   cerr := cerr s @ [System_error code ''Failed to get device info'']\<rparr>)"
    using scan_linux_devinfo_fails [of ent code rest r hubs s] by blast
  have l3: "take 3 (d_name ent) = ''hid'' \<and> fd (sys_open ent) \<noteq> - 1 \<and> hidiocgdevinfo ent = Inr info \<and>
        vendor info = 0x0694 \<and> product info = 0x0003 \<and> hidiocgname ent = Inl code
      \<longrightarrow> scan_linux (ent # rest) r hubs s
            = scan_linux rest r hubs
                (s\<lparr>closed := closed s @ [fd (sys_open ent)],
                   cerr := cerr s @ [System_error code ''Failed to get device name'']\<rparr>)"
    using scan_linux_name_fails [of ent info code rest r hubs s] by blast
  note l4 = findHubs_linux_result [of es r s]
  have l5: "(\<forall>ent \<in> set es. \<not> accepted_linux ent) \<longrightarrow> fst (findHubs_linux (Inr (DIR es r)) s) = Inr []"
    using discovered_linux_none [of es "length (heap s)"] by (simp add: findHubs_linux_result)
  have l6: "\<forall>h \<in> set (discovered_linux a es).
         \<exists>ent \<in> set es. accepted_linux ent \<and> hidiocgname ent = Inr (getName h) \<and>
           getPath h = ''/dev/usb/'' @ d_name ent \<and>
           h = Hub_at (Hub.processor h) (getName h) (getPath h)"
    using discovered_linux_complete by blast
  have w1: "enumerated iface \<and> fd (create_file iface) = - 1
      \<longrightarrow> scan_win32 (Inr iface # others) hubs t = scan_win32 others hubs t"
    using scan_win32_open_fails [of iface others hubs t] by blast
  have w1b: "enumerated iface \<and> fd (create_file iface) \<noteq> - 1 \<and> hid_attributes iface = None
      \<longrightarrow> scan_win32 (Inr iface # others) hubs t
            = scan_win32 others hubs (t\<lparr>closed := closed t @ [fd (create_file iface)]\<rparr>)"
    using scan_win32_no_attributes [of iface others hubs t] by blast
  have w2: "enumerated iface \<and> fd (create_file iface) \<noteq> - 1 \<and>
        hid_attributes iface = Some (0x0694, 0x0003) \<and>
        (product_string iface \<noteq> None \<or>
         (\<exists>code. utf8_count iface = Inl code) \<or> (\<exists>code. utf8_bytes iface = Inl code))
      \<longrightarrow> scan_win32 (Inr iface # others) hubs t
            = scan_win32 others hubs (t\<lparr>closed := closed t @ [fd (create_file iface)]\<rparr>)"
  proof (cases "product_string iface")
    case None
    then show ?thesis using scan_win32_encoding_fails [of iface others hubs t] by blast
  next
    case (Some c)
    then show ?thesis using scan_win32_name_fails [of iface c others hubs t] by blast
  qed
  have w3: "enumeration_error ifs = None
      \<longrightarrow> fst (findHubs_win32 (Inr ifs) t) = Inr (discovered_win32 (length (heap t)) ifs)"
    by (simp add: findHubs_win32_result)
  from l1 l2 l3 l4 l5 l6 w1 w1b w2 w3 show ?thesis by blast
qed


lemma linux_all_failures:
  "findHubs_linux (Inr (DIR [linux_unopenable, linux_mute, linux_nameless_hub, linux_hub] None)) os0
     = (Inr [Hub_at 0 ''LEGO USB Hub'' ''/dev/usb/hiddev2''],
        \<lparr>heap = [Processor_ctor (sample_file 5)], closed = [7, 6],
         cerr = [System_error 13 ''Failed to open file'', System_error 25 ''Failed to get device info'',
                 System_error 5 ''Failed to get device name'']\<rparr>)"
  by (simp add: sample_defs linux_mute_def scan_defs)

lemma win32_all_failures:
  "findHubs_win32 (Inr [Inr win32_unopenable, Inr win32_mute, Inr win32_nameless_hub,
       Inr win32_unencodable_hub, Inr win32_hub]) os0
     = (Inr [Hub_at 0 ''LEGO USB Hub'' ''hid#2''],
        \<lparr>heap = [Processor_ctor (sample_file 5)], closed = [8, 6, 7], cerr = []\<rparr>)"
  by (simp add: sample_defs win32_mute_def scan_defs)

theorem probe_failure_skips_candidate_witness:
  "scan_linux [linux_unopenable, linux_hub] None [] os0
     = scan_linux [linux_hub] None [] (os0\<lparr>cerr := cerr os0 @ [System_error 13 ''Failed to open file'']\<rparr>)
   \<and> scan_linux [linux_mute, linux_hub] None [] os0
     = scan_linux [linux_hub] None []
         (os0\<lparr>closed := closed os0 @ [7], cerr := cerr os0 @ [System_error 25 ''Failed to get device info'']\<rparr>)
   \<and> scan_linux [linux_nameless_hub, linux_hub] None [] os0
     = scan_linux [linux_hub] None []
         (os0\<lparr>closed := closed os0 @ [6], cerr := cerr os0 @ [System_error 5 ''Failed to get device name'']\<rparr>)
   \<and> fst (findHubs_linux (Inr (DIR [linux_unopenable, linux_mute, linux_nameless_hub, linux_hub] None)) os0)
       = Inr [Hub_at 0 ''LEGO USB Hub'' ''/dev/usb/hiddev2'']
   \<and> fst (findHubs_linux (Inr (DIR [linux_unopenable, linux_mute, linux_nameless_hub] None)) os0) = Inr []
   \<and> scan_win32 [Inr win32_unopenable, Inr win32_hub] [] os0 = scan_win32 [Inr win32_hub] [] os0
   \<and> scan_win32 [Inr win32_mute, Inr win32_hub] [] os0
       = scan_win32 [Inr win32_hub] [] (os0\<lparr>closed := closed os0 @ [8]\<rparr>)
   \<and> scan_win32 [Inr win32_nameless_hub, Inr win32_hub] [] os0
       = scan_win32 [Inr win32_hub] [] (os0\<lparr>closed := closed os0 @ [6]\<rparr>)
   \<and> scan_win32 [Inr win32_unencodable_hub, Inr win32_hub] [] os0
       = scan_win32 [Inr win32_hub] [] (os0\<lparr>closed := closed os0 @ [7]\<rparr>)
   \<and> fst (findHubs_win32 (Inr [Inr win32_unopenable, Inr win32_mute, Inr win32_nameless_hub,
         Inr win32_unencodable_hub, Inr win32_hub]) os0)
       = Inr [Hub_at 0 ''LEGO USB Hub'' ''hid#2'']"
proof -
  note open_fails = probe_failure_skips_candidate [where ent = linux_unopenable and code = 0
      and info = "\<lparr>vendor = 0, product = 0\<rparr>" and rest = "[linux_hub]"
      and r = None and hubs = "[]" and s = os0 and a = 0
      and es = "[linux_unopenable, linux_mute, linux_nameless_hub, linux_hub]"
      and iface = win32_unopenable and others = "[Inr win32_hub]" and t = os0
      and ifs = "[Inr win32_unopenable, Inr win32_mute, Inr win32_nameless_hub,
         Inr win32_unencodable_hub, Inr win32_hub]"]
  note query_fails = probe_failure_skips_candidate [where ent = linux_mute and code = 25
      and info = "\<lparr>vendor = 0, product = 0\<rparr>" and rest = "[linux_hub]"
      and r = None and hubs = "[]" and s = os0 and a = 0
      and es = "[linux_unopenable, linux_mute, linux_nameless_hub]"
      and iface = win32_mute and others = "[Inr win32_hub]" and t = os0 and ifs = "[]"]
  note name_fails = probe_failure_skips_candidate [where ent = linux_nameless_hub and code = 5
      and info = "\<lparr>vendor = 0x0694, product = 0x0003\<rparr>" and rest = "[linux_hub]"
      and r = None and hubs = "[]" and s = os0 and a = 0 and es = "[]"
      and iface = win32_nameless_hub and others = "[Inr win32_hub]" and t = os0 and ifs = "[]"]
  note encoding_fails = probe_failure_skips_candidate [where ent = linux_nameless_hub and code = 5
      and info = "\<lparr>vendor = 0x0694, product = 0x0003\<rparr>" and rest = "[linux_hub]"
      and r = None and hubs = "[]" and s = os0 and a = 0 and es = "[]"
      and iface = win32_unencodable_hub and others = "[Inr win32_hub]" and t = os0 and ifs = "[]"]
  have linux: "take 3 (d_name linux_unopenable) = ''hid''" "fd (sys_open linux_unopenable) = - 1"
    "take 3 (d_name linux_mute) = ''hid''" "fd (sys_open linux_mute) \<noteq> - 1"
    "hidiocgdevinfo linux_mute = Inl 25"
    "take 3 (d_name linux_nameless_hub) = ''hid''" "fd (sys_open linux_nameless_hub) \<noteq> - 1"
    "hidiocgdevinfo linux_nameless_hub = Inr \<lparr>vendor = 0x0694, product = 0x0003\<rparr>"
    "vendor \<lparr>vendor = 0x0694, product = 0x0003\<rparr> = 0x0694"
    "product \<lparr>vendor = 0x0694, product = 0x0003\<rparr> = 0x0003"
    "hidiocgname linux_nameless_hub = Inl 5"
    by (simp_all add: sample_defs linux_mute_def)
  have win32: "enumerated win32_unopenable" "fd (create_file win32_unopenable) = - 1"
    "enumerated win32_mute" "fd (create_file win32_mute) \<noteq> - 1" "hid_attributes win32_mute = None"
    "enumerated win32_nameless_hub" "fd (create_file win32_nameless_hub) \<noteq> - 1"
    "hid_attributes win32_nameless_hub = Some (0x0694, 0x0003)"
    "product_string win32_nameless_hub \<noteq> None"
    "enumerated win32_unencodable_hub" "fd (create_file win32_unencodable_hub) \<noteq> - 1"
    "hid_attributes win32_unencodable_hub = Some (0x0694, 0x0003)"
    "\<exists>code. utf8_bytes win32_unencodable_hub = Inl code"
    by (simp_all add: sample_defs win32_mute_def enumerated_def)
  have none: "\<forall>ent \<in> set [linux_unopenable, linux_mute, linux_nameless_hub]. \<not> accepted_linux ent"
    by (simp add: accepted_linux_def sample_defs linux_mute_def)
  have answers: "open_errno linux_unopenable = 13" "fd (sys_open linux_mute) = 7"
    "fd (sys_open linux_nameless_hub) = 6" "fd (create_file win32_mute) = 8"
    "fd (create_file win32_nameless_hub) = 6" "fd (create_file win32_unencodable_hub) = 7"
    by (simp_all add: sample_defs linux_mute_def win32_mute_def)
  have c1: "scan_linux [linux_unopenable, linux_hub] None [] os0
     = scan_linux [linux_hub] None []
         (os0\<lparr>cerr := cerr os0 @ [System_error (open_errno linux_unopenable) ''Failed to open file'']\<rparr>)"
    using open_fails linux(1,2) by blast
  have c2: "scan_linux [linux_mute, linux_hub] None [] os0
     = scan_linux [linux_hub] None []
         (os0\<lparr>closed := closed os0 @ [fd (sys_open linux_mute)],
              cerr := cerr os0 @ [System_error 25 ''Failed to get device info'']\<rparr>)"
    using query_fails linux(3,4,5) by blast
  have c3: "scan_linux [linux_nameless_hub, linux_hub] None [] os0
     = scan_linux [linux_hub] None []
         (os0\<lparr>closed := closed os0 @ [fd (sys_open linux_nameless_hub)],
              cerr := cerr os0 @ [System_error 5 ''Failed to get device name'']\<rparr>)"
    using name_fails linux(6-11) by blast
  have c4: "fst (findHubs_linux (Inr (DIR [linux_unopenable, linux_mute, linux_nameless_hub] None)) os0)
       = Inr []"
    using query_fails none by blast
  have c5: "scan_win32 [Inr win32_unopenable, Inr win32_hub] [] os0 = scan_win32 [Inr win32_hub] [] os0"
    using open_fails win32(1,2) by blast
  have c6: "scan_win32 [Inr win32_mute, Inr win32_hub] [] os0
       = scan_win32 [Inr win32_hub] [] (os0\<lparr>closed := closed os0 @ [fd (create_file win32_mute)]\<rparr>)"
    using query_fails win32(3,4,5) by blast
  have c7: "scan_win32 [Inr win32_nameless_hub, Inr win32_hub] [] os0
       = scan_win32 [Inr win32_hub] []
           (os0\<lparr>closed := closed os0 @ [fd (create_file win32_nameless_hub)]\<rparr>)"
    using name_fails win32(6-9) by blast
  have c8: "scan_win32 [Inr win32_unencodable_hub, Inr win32_hub] [] os0
       = scan_win32 [Inr win32_hub] []
           (os0\<lparr>closed := closed os0 @ [fd (create_file win32_unencodable_hub)]\<rparr>)"
    using encoding_fails win32(10-13) by blast
  show ?thesis
    unfolding c1 c2 c3 c4 c5 c6 c7 c8 answers
    by (simp add: linux_all_failures win32_all_failures del: scan_linux.simps scan_win32.simps)
qed

section \<open>Discovery: failures of the enumeration\<close>

lemma scan_linux_readdir_errno: "scan_linux es r hubs s = scan_linux es r' hubs s"
  by (induction es arbitrary: hubs s) (simp_all split: prod.splits sum.splits)

lemma findHubs_linux_opendir_fails:
  "findHubs_linux (Inl code) s = (Inl (System_error code ''Failed to open directory''), s)"
  by (simp add: findHubs_linux_def)

lemma findHubs_linux_readdir_fails:
  "findHubs_linux (Inr (DIR es (Some code))) s = findHubs_linux (Inr (DIR es None)) s"
  using scan_linux_readdir_errno [of es "Some code" "[]" s None] by (simp add: findHubs_linux_def)

lemma findHubs_win32_classdevs_fails:
  "findHubs_win32 (Inl code) s = (Inl (System_error code ''Failed to get devices''), s)"
  by (simp add: findHubs_win32_def)

lemma findHubs_win32_enumeration_fails:
  "enumeration_error ifs = Some e \<Longrightarrow> fst (findHubs_win32 (Inr ifs) s) = Inl e"
  by (simp add: findHubs_win32_result)

lemma enumeration_error_at:
  assumes "\<forall>x \<in> set pre. case x of Inl c \<Rightarrow> False | Inr iface \<Rightarrow> enumerated iface"
    and "code \<noteq> ERROR_NO_MORE_ITEMS"
  shows "enumeration_error (pre @ Inl code # rest)
           = Some (System_error code ''Failed to enumerate device interfaces'')"
  using assms(1)
proof (induction pre)
  case Nil
  then show ?case using assms(2) by simp
next
  case (Cons x pre)
  then show ?case
    by (cases x) (auto simp: enumerated_def split: option.splits sum.splits)
qed

text \<open>
  C6. A failure of the enumeration facility should end discovery with that error. The
  Windows branch does so (\<open>findHubs_win32_enumeration_fails\<close>), and the POSIX branch
  does so when the directory cannot be opened. A \<^verbatim>\<open>readdir\<close> that fails returns the
  same null pointer as the end of the directory, and the loop of the POSIX branch does
  not look at \<^verbatim>\<open>errno\<close>: after one hub was found, a \<^verbatim>\<open>readdir\<close> failing with code 5
  ends the scan normally with that hub, where the Windows branch throws on the same
  course of events.
\<close>

theorem findHubs_linux_readdir_failure:
  "findHubs_linux (Inr (DIR [linux_hub] (Some 5))) os0
     = (Inr [Hub_at 0 ''LEGO USB Hub'' ''/dev/usb/hiddev2''],
        \<lparr>heap = [Processor_ctor (sample_file 5)], closed = [], cerr = []\<rparr>)
   \<and> fst (findHubs_win32 (Inr [Inr win32_hub, Inl 5]) os0)
       = Inl (System_error 5 ''Failed to enumerate device interfaces'')"
  by (simp add: sample_defs scan_defs unwind_def)

section \<open>The devices of a Hub\<close>

lemma discovered_linux_processors:
  "map Hub.processor (discovered_linux a es) = [a ..< a + length (filter accepted_linux es)]"
proof (induction es arbitrary: a)
  case Nil
  then show ?case by simp
next
  case (Cons ent rest)
  show ?case
  proof (cases "accepted_linux ent")
    case True
    have "[a ..< a + Suc (length (filter accepted_linux rest))]
            = a # [Suc a ..< Suc a + length (filter accepted_linux rest)]"
      by (simp add: upt_conv_Cons del: upt_Suc)
    then show ?thesis using True Cons.IH [of "Suc a"]
      by (simp add: hub_of_linux_def Hub_at_def del: upt_Suc)
  next
    case False
    then show ?thesis using Cons.IH [of a] by simp
  qed
qed

lemma discovered_win32_processors:
  "map Hub.processor (discovered_win32 a ifs) = [a ..< a + length (discovered_win32 a ifs)]"
proof (induction ifs arbitrary: a)
  case Nil
  then show ?case by simp
next
  case (Cons x rest)
  show ?case
  proof (cases x)
    case (Inl code)
    then show ?thesis by simp
  next
    case (Inr iface)
    show ?thesis
    proof (cases "accepted_win32 iface")
      case True
      have "[a ..< a + Suc (length (discovered_win32 (Suc a) rest))]
              = a # [Suc a ..< Suc a + length (discovered_win32 (Suc a) rest)]"
        by (simp add: upt_conv_Cons del: upt_Suc)
      then show ?thesis using True Cons.IH [of "Suc a"] Inr
        by (simp add: hub_of_win32_def Hub_at_def del: upt_Suc)
    next
      case False
      then show ?thesis using Cons.IH [of a] Inr by simp
    qed
  qed
qed

lemma Hub_at_devices:
  "getDevices (Hub_at a n p)
     = [\<lparr>slot = 0, Device.processor = Hub.processor (Hub_at a n p)\<rparr>,
        \<lparr>slot = 1, Device.processor = Hub.processor (Hub_at a n p)\<rparr>]"
  by (simp add: Hub_at_def getDevices_def)

lemma length_getType: "length (snd (getType d H)) = length H"
  by (simp add: getType_def split: option.splits prod.splits sum.splits)

lemma length_getValue: "length (snd (getValue d H)) = length H"
  by (simp add: getValue_def split: option.splits prod.splits)

lemma length_setValue: "length (snd (setValue d v H)) = length H"
  by (simp add: setValue_def split: option.splits prod.splits)


lemma length_device_serve: "length (device_serve d rq H) = length H"
  by (cases rq) (simp_all add: length_getType length_getValue length_setValue)

lemma length_devices_serve: "length (devices_serve rqs H) = length H"
proof (induction rqs arbitrary: H)
  case Nil
  then show ?case by simp
next
  case (Cons x rest)
  then show ?case by (cases x) (simp add: length_device_serve)
qed

lemma two_views_Hub_at: "two_views (Hub_at a n p)"
  by (simp add: two_views_def Hub_at_devices)

lemma findHubs_linux_heap:
  "heap (snd (findHubs_linux (Inr (DIR es r)) s))
     = heap s @ map (\<lambda>ent. Processor_ctor (sys_open ent)) (filter accepted_linux es)"
proof -
  obtain hubs s' where e: "scan_linux es r [] s = (hubs, s')" by (cases "scan_linux es r [] s")
  then have "heap s' = heap s @ map (\<lambda>ent. Processor_ctor (sys_open ent)) (filter accepted_linux es)"
    using scan_linux_result [of es r "[]" s] by simp
  then show ?thesis by (simp add: findHubs_linux_def e)
qed

text \<open>
  C4. The constructor gives a Hub exactly two Devices, slot 0 then slot 1, both holding
  the address of the one Processor the constructor created for this Hub; the name and
  the path are the arguments. The same holds of every Hub discovery returns, in either
  branch, and no two of them share a Processor. A Hub has accessors only, and the
  operations of a Device, one or many, change the Processor behind the address, never
  the number of objects in the store, so the device sequence of a Hub stays what the
  constructor made and its addresses stay good.
\<close>

theorem Hub_two_devices:
  "(case Hub_ctor n p f H of
      (h, H') \<Rightarrow>
        two_views h \<and> length (getDevices h) = 2 \<and> map getSlot (getDevices h) = [0, 1] \<and>
        getName h = n \<and> getPath h = p \<and> H' = H @ [Processor_ctor f] \<and>
        deref H' (Hub.processor h) = Some (Processor_ctor f))
   \<and> (fst (findHubs_linux (Inr (DIR es r)) s) = Inr found \<longrightarrow>
        (\<forall>h \<in> set found.
           two_views h \<and>
           deref (heap (snd (findHubs_linux (Inr (DIR es r)) s))) (Hub.processor h) \<noteq> None) \<and>
        distinct (map Hub.processor found))
   \<and> (fst (findHubs_win32 (Inr ifs) t) = Inr found' \<longrightarrow>
        (\<forall>h \<in> set found'. two_views h) \<and> distinct (map Hub.processor found'))
   \<and> length (snd (getType d H)) = length H
   \<and> length (snd (getValue d H)) = length H
   \<and> length (snd (setValue d v H)) = length H
   \<and> length (devices_serve rqs H) = length H"
proof -
  have c: "case Hub_ctor n p f H of
      (h, H') \<Rightarrow>
        two_views h \<and> length (getDevices h) = 2 \<and> map getSlot (getDevices h) = [0, 1] \<and>
        getName h = n \<and> getPath h = p \<and> H' = H @ [Processor_ctor f] \<and>
        deref H' (Hub.processor h) = Some (Processor_ctor f)"
    by (simp add: Hub_ctor_eq two_views_Hub_at)
      (simp add: Hub_at_def getDevices_def getSlot_def getName_def getPath_def deref_def)
  have l: "fst (findHubs_linux (Inr (DIR es r)) s) = Inr found \<longrightarrow>
        (\<forall>h \<in> set found.
           two_views h \<and>
           deref (heap (snd (findHubs_linux (Inr (DIR es r)) s))) (Hub.processor h) \<noteq> None) \<and>
        distinct (map Hub.processor found)"
  proof (intro impI)
    assume "fst (findHubs_linux (Inr (DIR es r)) s) = Inr found"
    then have f: "found = discovered_linux (length (heap s)) es"
      by (simp add: findHubs_linux_result)
    have ps: "map Hub.processor found
                = [length (heap s) ..< length (heap s) + length (filter accepted_linux es)]"
      unfolding f by (rule discovered_linux_processors)
    have d: "distinct (map Hub.processor found)" unfolding ps by simp
    have "two_views h \<and>
           deref (heap (snd (findHubs_linux (Inr (DIR es r)) s))) (Hub.processor h) \<noteq> None"
      if h: "h \<in> set found" for h
    proof -
      obtain ent k where "ent \<in> set es" and "h = hub_of_linux k ent"
        using h f discovered_linux_mem by blast
      then have v: "two_views h" by (simp add: hub_of_linux_def two_views_Hub_at)
      have "Hub.processor h \<in> set (map Hub.processor found)" using h by simp
      then have "Hub.processor h < length (heap s) + length (filter accepted_linux es)"
        unfolding ps by simp
      then show ?thesis using v by (simp add: findHubs_linux_heap deref_def)
    qed
    then show "(\<forall>h \<in> set found.
           two_views h \<and>
           deref (heap (snd (findHubs_linux (Inr (DIR es r)) s))) (Hub.processor h) \<noteq> None) \<and>
        distinct (map Hub.processor found)"
      using d by blast
  qed
  have w: "fst (findHubs_win32 (Inr ifs) t) = Inr found' \<longrightarrow>
        (\<forall>h \<in> set found'. two_views h) \<and> distinct (map Hub.processor found')"
  proof (intro impI)
    assume "fst (findHubs_win32 (Inr ifs) t) = Inr found'"
    then have f: "found' = discovered_win32 (length (heap t)) ifs"
      by (simp add: findHubs_win32_result split: option.splits)
    have "distinct (map Hub.processor found')"
      unfolding f discovered_win32_processors by simp
    moreover have "two_views h" if h: "h \<in> set found'" for h
    proof -
      obtain iface k where "Inr iface \<in> set ifs" and "h = hub_of_win32 k iface"
        using h f discovered_win32_mem by blast
      then show ?thesis by (simp add: hub_of_win32_def two_views_Hub_at)
    qed
    ultimately show "(\<forall>h \<in> set found'. two_views h) \<and> distinct (map Hub.processor found')"
      by blast
  qed
  from c l w show ?thesis
    by (simp add: length_getType length_getValue length_setValue length_devices_serve)
qed

theorem Hub_two_devices_witness:
  "getDevices (fst (Hub_ctor ''LEGO USB Hub'' ''/dev/usb/hiddev2'' (sample_file 5) []))
     = [\<lparr>slot = 0, Device.processor = 0\<rparr>, \<lparr>slot = 1, Device.processor = 0\<rparr>]
   \<and> fst (findHubs_linux (Inr (DIR [linux_hub, linux_other_product, linux_hub] None)) os0)
       = Inr [Hub_at 0 ''LEGO USB Hub'' ''/dev/usb/hiddev2'', Hub_at 1 ''LEGO USB Hub'' ''/dev/usb/hiddev2'']
   \<and> two_views (Hub_at 1 ''LEGO USB Hub'' ''/dev/usb/hiddev2'')
   \<and> fst (findHubs_win32 (Inr [Inr win32_hub, Inr win32_unopenable, Inr win32_hub]) os0)
       = Inr [Hub_at 0 ''LEGO USB Hub'' ''hid#2'', Hub_at 1 ''LEGO USB Hub'' ''hid#2'']
   \<and> two_views (Hub_at 1 ''LEGO USB Hub'' ''hid#2'')"
  using Hub_two_devices [where n = "''LEGO USB Hub''" and p = "''/dev/usb/hiddev2''"
      and f = "sample_file 5" and H = "[]"
      and es = "[linux_hub, linux_other_product, linux_hub]" and r = None and s = os0
      and found = "[Hub_at 0 ''LEGO USB Hub'' ''/dev/usb/hiddev2'', Hub_at 1 ''LEGO USB Hub'' ''/dev/usb/hiddev2'']"
      and ifs = "[Inr win32_hub, Inr win32_unopenable, Inr win32_hub]" and t = os0
      and found' = "[Hub_at 0 ''LEGO USB Hub'' ''hid#2'', Hub_at 1 ''LEGO USB Hub'' ''hid#2'']"]
  by (simp add: sample_defs scan_defs two_views_def getDevices_def)

end
